theory Spec2Isabelle
  imports Main "HOL-Library.Sublist"
begin

section \<open>Python string operations used by sync\_upstream.py\<close>

text \<open>
  A Python \<open>str\<close> is modelled as a \<open>string\<close> whose characters are the code points
  0..255; every literal the program compares against lies in that range. The content of
  the written file \<open>.gitattributes\<close> is modelled as the bytes of its UTF-8 encoding.
\<close>

abbreviation NL :: char where "NL \<equiv> CHR 0x0A"
abbreviation BS :: char where "BS \<equiv> CHR 0x5C"
abbreviation CR :: char where "CR \<equiv> CHR 0x0D"

text \<open>\<open>str.isspace\<close> on the code points below 256.\<close>

definition is_space :: "char \<Rightarrow> bool" where
  "is_space c = (c \<in> set [CHR 0x09, CHR 0x0A, CHR 0x0B, CHR 0x0C, CHR 0x0D,
                             CHR 0x1C, CHR 0x1D, CHR 0x1E, CHR 0x1F, CHR 0x20,
                             CHR 0x85, CHR 0xA0])"

text \<open>\<open>s.lstrip(chars)\<close>, \<open>s.rstrip(chars)\<close>, \<open>s.strip(chars)\<close> and \<open>s.strip()\<close>.\<close>

definition lstrip_chars :: "string \<Rightarrow> string \<Rightarrow> string" where
  "lstrip_chars cs s = dropWhile (\<lambda>c. c \<in> set cs) s"

definition rstrip_chars :: "string \<Rightarrow> string \<Rightarrow> string" where
  "rstrip_chars cs s = rev (dropWhile (\<lambda>c. c \<in> set cs) (rev s))"

definition strip_chars :: "string \<Rightarrow> string \<Rightarrow> string" where
  "strip_chars cs s = rstrip_chars cs (lstrip_chars cs s)"

definition strip :: "string \<Rightarrow> string" where
  "strip s = rev (dropWhile is_space (rev (dropWhile is_space s)))"

text \<open>\<open>s.split(sep)\<close> for a separator of one character: never the empty list.\<close>

fun split_on :: "char \<Rightarrow> string \<Rightarrow> string list" where
  "split_on sep [] = [[]]"
| "split_on sep (c # cs) =
     (if c = sep then [] # split_on sep cs
      else (case split_on sep cs of [] \<Rightarrow> [[c]] | w # ws \<Rightarrow> (c # w) # ws))"

text \<open>\<open>s.startswith(p)\<close> is \<open>prefix p s\<close>; \<open>s.endswith(p)\<close> is \<open>suffix p s\<close>;
  \<open>p in s\<close> is \<open>sublist p s\<close>.\<close>

text \<open>\<open>s.replace(old, new)\<close>: occurrences are replaced from the left, without overlap.
  With an empty \<open>old\<close> Python puts \<open>new\<close> before every character and at the end.\<close>

function replace_str :: "string \<Rightarrow> string \<Rightarrow> string \<Rightarrow> string" where
  "replace_str old new s =
     (if old = [] then new @ concat (map (\<lambda>c. c # new) s)
      else if s = [] then []
      else if prefix old s then new @ replace_str old new (drop (length old) s)
      else hd s # replace_str old new (tl s))"
  by pat_completeness auto
termination
  by (relation "measure (\<lambda>(old, new, s). length s)") auto

declare replace_str.simps [simp del]

text \<open>\<open>s.lower()\<close>: the capital letters of the code points below 256 and their small
  letters (\<open>A\<close>..\<open>Z\<close>, and U+00C0..U+00DE without the multiplication sign).\<close>

definition capitals :: string where
  "capitals = ''ABCDEFGHIJKLMNOPQRSTUVWXYZ'' @
     [CHR 0xC0, CHR 0xC1, CHR 0xC2, CHR 0xC3, CHR 0xC4, CHR 0xC5, CHR 0xC6, CHR 0xC7,
      CHR 0xC8, CHR 0xC9, CHR 0xCA, CHR 0xCB, CHR 0xCC, CHR 0xCD, CHR 0xCE, CHR 0xCF,
      CHR 0xD0, CHR 0xD1, CHR 0xD2, CHR 0xD3, CHR 0xD4, CHR 0xD5, CHR 0xD6,
      CHR 0xD8, CHR 0xD9, CHR 0xDA, CHR 0xDB, CHR 0xDC, CHR 0xDD, CHR 0xDE]"

definition smalls :: string where
  "smalls = ''abcdefghijklmnopqrstuvwxyz'' @
     [CHR 0xE0, CHR 0xE1, CHR 0xE2, CHR 0xE3, CHR 0xE4, CHR 0xE5, CHR 0xE6, CHR 0xE7,
      CHR 0xE8, CHR 0xE9, CHR 0xEA, CHR 0xEB, CHR 0xEC, CHR 0xED, CHR 0xEE, CHR 0xEF,
      CHR 0xF0, CHR 0xF1, CHR 0xF2, CHR 0xF3, CHR 0xF4, CHR 0xF5, CHR 0xF6,
      CHR 0xF8, CHR 0xF9, CHR 0xFA, CHR 0xFB, CHR 0xFC, CHR 0xFD, CHR 0xFE]"

definition lower_char :: "char \<Rightarrow> char" where
  "lower_char c = (case map_of (zip capitals smalls) c of None \<Rightarrow> c | Some d \<Rightarrow> d)"

definition lower :: "string \<Rightarrow> string" where
  "lower s = map lower_char s"

text \<open>\<open>str(i)\<close> for a natural number: its decimal digits, no sign, no leading zero.\<close>

definition digit_char :: "nat \<Rightarrow> char" where
  "digit_char d = ''0123456789'' ! d"

fun str_nat :: "nat \<Rightarrow> string" where
  "str_nat n = (if n < 10 then [digit_char n] else str_nat (n div 10) @ [digit_char (n mod 10)])"

declare str_nat.simps [simp del]

section \<open>The regular expressions of the exclusion patterns\<close>

text \<open>
  The patterns of \<open>excluded_patterns\<close> use the start anchor, the end anchor, escaped
  punctuation and plain characters. \<open>parse_re\<close> reads this part of Python's syntax and
  gives \<open>None\<close> on any other metacharacter; \<open>match_here\<close> is \<open>re.match\<close> on it:
  the match starts at the beginning of the string, and the end anchor holds at the end of
  the string and just before a newline that ends the string.
\<close>

datatype atom = Bol | Eol | Lit char | AnyChar

definition is_alnum :: "char \<Rightarrow> bool" where
  "is_alnum c = (c \<in> set (''ABCDEFGHIJKLMNOPQRSTUVWXYZabcdefghijklmnopqrstuvwxyz'' @
                            ''0123456789''))"

fun parse_re :: "string \<Rightarrow> atom list option" where
  "parse_re [] = Some []"
| "parse_re [c] =
     (if c = CHR ''^'' then Some [Bol]
      else if c = CHR ''$'' then Some [Eol]
      else if c = CHR ''.'' then Some [AnyChar]
      else if c \<in> set (BS # ''*+?{}[]()|'') then None
      else Some [Lit c])"
| "parse_re (c # d # ds) =
     (if c = CHR ''^'' then map_option ((#) Bol) (parse_re (d # ds))
      else if c = CHR ''$'' then map_option ((#) Eol) (parse_re (d # ds))
      else if c = CHR ''.'' then map_option ((#) AnyChar) (parse_re (d # ds))
      else if c = BS then
        (if is_alnum d then None else map_option ((#) (Lit d)) (parse_re ds))
      else if c \<in> set ''*+?{}[]()|'' then None
      else map_option ((#) (Lit c)) (parse_re (d # ds)))"

fun match_here :: "atom list \<Rightarrow> bool \<Rightarrow> string \<Rightarrow> bool" where
  "match_here [] at_start s = True"
| "match_here (Bol # as) at_start s = (at_start \<and> match_here as at_start s)"
| "match_here (Eol # as) at_start s = ((s = [] \<or> s = [NL]) \<and> match_here as at_start s)"
| "match_here (Lit c # as) at_start [] = False"
| "match_here (Lit c # as) at_start (x # xs) = (x = c \<and> match_here as False xs)"
| "match_here (AnyChar # as) at_start [] = False"
| "match_here (AnyChar # as) at_start (x # xs) = (x \<noteq> NL \<and> match_here as False xs)"

definition re_match :: "string \<Rightarrow> string \<Rightarrow> bool" where
  "re_match p s = (case parse_re p of None \<Rightarrow> False | Some as \<Rightarrow> match_here as True s)"

section \<open>The exclusion rules and the change set\<close>

text \<open>\<open>UpstreamSync.excluded_patterns\<close>, in the order of the source.\<close>

definition excluded_patterns :: "string list" where
  "excluded_patterns =
     [''^'' @ BS # ''.github/'',
      ''^SRAFrontend/'',
      ''^setup/'',
      ''^README'' @ BS # ''.md$'',
      ''^package'' @ BS # ''.py$'',
      ''^'' @ BS # ''.gitignore$'',
      ''^'' @ BS # ''.gitattributes$'']"

text \<open>The inner loop of \<open>get_changed_files\<close>: the flag \<open>exclude\<close> for one file.\<close>

definition is_excluded :: "string \<Rightarrow> bool" where
  "is_excluded file = list_ex (\<lambda>pattern. re_match pattern file) excluded_patterns"

text \<open>\<open>all_files\<close> and \<open>filtered_files\<close> of \<open>get_changed_files\<close>, from the output
  that \<open>run_cmd\<close> returned.\<close>

definition all_files :: "string \<Rightarrow> string list" where
  "all_files output = map strip (filter (\<lambda>f. strip f \<noteq> []) (split_on NL output))"

definition filtered_files :: "string \<Rightarrow> string list" where
  "filtered_files output =
     (if output = [] then [] else filter (\<lambda>file. \<not> is_excluded file) (all_files output))"

text \<open>\<open>clean_pattern\<close>, as computed in \<open>_setup_merge_protection\<close>,
  \<open>apply_all_changes\<close> and \<open>main_loop\<close>.\<close>

definition clean_pattern :: "string \<Rightarrow> string" where
  "clean_pattern pattern = replace_str [BS, CHR ''.''] ''.'' (strip_chars ''^$'' pattern)"

section \<open>The backend, the operator and the trace\<close>

text \<open>
  \<open>run_cmd\<close> hands a command line to the shell. The version-control backend is a
  parameter: it answers the last command of a history of commands either with an
  exception of \<open>subprocess.run\<close> or with its standard output and return code.
  The operator is the list of lines that \<open>input()\<close> will read; reading past its end
  raises \<open>EOFError\<close>. What the program does is recorded as a trace of events: the
  commands it runs, the prompts it asks, the reports it prints and the editor it launches.
  Print statements that only lay out the screen (section headers, the menu lines) are not
  recorded.
\<close>

datatype reply = Raised | Exited string int

datatype prompt =
    AskViewDiffs | AskNextFile | AskConfirmAll | AskSelection
  | AskOpenEditor | AskAddRemote | AskMenu | AskReturn

datatype msg =
    CommandFailed string
  | ProtectionCreated | ProtectionFailed
  | Fetching | FetchDone string | FetchFailed
  | NothingToUpdate | FoundFiles "string list" | DiffOf string string | NoTextChange string
  | AboutToApply "string list" | Cancelled | Applying | MergeFailed | Staged
  | ChooseFiles "string list" | InvalidNumber string | ApplyingSelected
  | UpdatingFile string | UpdatedFiles nat
  | CheckingConflicts | ConflictsFound "string list" | NoConflicts | AllConflictsFixed
  | StatusHeader
  | RemoteMissing | RemoteAdded | AddRemoteManually | CannotContinue
  | UpToDate "string list" | Summary "string list" | InvalidChoice | NextSteps | Goodbye
  | NotARepository | GitUnavailable | ProgramError

datatype event = Run string | Ask prompt | Say msg | Launch string

record env =
  backend :: "string list \<Rightarrow> reply"
  can_write :: bool
  in_repository :: bool
  git_available :: bool
  file_exists :: "string \<Rightarrow> bool"

record state =
  gitattributes :: "string option"
  trace :: "event list"
  stdin :: "string list"

text \<open>How a function of the program ends: it returns, or an exception leaves it (the
  only one modelled past \<open>run_cmd\<close> and \<open>_setup_merge_protection\<close> is the
  \<open>EOFError\<close> of \<open>input()\<close>).\<close>

datatype outcome = Returned | EOFError

definition say :: "msg \<Rightarrow> state \<Rightarrow> state" where
  "say m st = st\<lparr>trace := trace st @ [Say m]\<rparr>"

definition commands :: "event list \<Rightarrow> string list" where
  "commands tr = [c. Run c \<leftarrow> tr]"

text \<open>Reading the output of a subprocess in text mode (\<open>text=True\<close>) translates the
  line endings: a carriage return followed by a line feed, and a carriage return alone,
  both become one line feed.\<close>

fun universal_newlines :: "string \<Rightarrow> string" where
  "universal_newlines [] = []"
| "universal_newlines [c] = (if c = CR then [NL] else [c])"
| "universal_newlines (c # d # cs) =
     (if c = CR then
        (if d = NL then NL # universal_newlines cs else NL # universal_newlines (d # cs))
      else c # universal_newlines (d # cs))"

text \<open>\<open>run_cmd(cmd, capture, keep_color)\<close>: the exception of the subprocess is caught
  and reported, and the result is then \<open>("", 1)\<close>. The reply of the backend holds the
  decoded standard output. Captured output is read in text mode and stripped; with
  \<open>keep_color\<close> the bytes are decoded as they are and stripped; without capture the
  output goes to the console and the result holds the empty string.\<close>

definition run_cmd :: "env \<Rightarrow> string \<Rightarrow> bool \<Rightarrow> bool \<Rightarrow> state \<Rightarrow> (string \<times> int) \<times> state" where
  "run_cmd E cmd capture keep_color st =
     (let st1 = st\<lparr>trace := trace st @ [Run cmd]\<rparr> in
      case backend E (commands (trace st1)) of
        Raised \<Rightarrow> (([], 1), say (CommandFailed cmd) st1)
      | Exited out code \<Rightarrow>
          ((if capture then
              (if keep_color then strip out else strip (universal_newlines out))
            else [], code), st1))"

definition read_input :: "prompt \<Rightarrow> state \<Rightarrow> string option \<times> state" where
  "read_input p st =
     (let st1 = st\<lparr>trace := trace st @ [Ask p]\<rparr> in
      case stdin st1 of
        [] \<Rightarrow> (None, st1)
      | line # rest \<Rightarrow> (Some line, st1\<lparr>stdin := rest\<rparr>))"

section \<open>Merge protection\<close>

text \<open>The first line that \<open>_setup_merge_protection\<close> writes, a comment in Chinese, as
  the bytes of its UTF-8 encoding.\<close>

definition protection_header :: string where
  "protection_header = ''# '' @
     [CHR 0xE5, CHR 0x90, CHR 0x88, CHR 0xE5, CHR 0xB9, CHR 0xB6, CHR 0xE4, CHR 0xBF, CHR 0x9D,
      CHR 0xE6, CHR 0x8A, CHR 0xA4, CHR 0xE9, CHR 0x85, CHR 0x8D, CHR 0xE7, CHR 0xBD, CHR 0xAE,
      NL]"

definition directive :: "string \<Rightarrow> string" where
  "directive pattern =
     (let clean = clean_pattern pattern in
      if suffix ''/'' clean then clean @ ''* merge=ours'' @ [NL]
      else clean @ '' merge=ours'' @ [NL])"

definition protection_content :: string where
  "protection_content =
     fold (\<lambda>pattern content. content @ directive pattern) excluded_patterns protection_header"

text \<open>\<open>_setup_merge_protection\<close>. An exception of \<open>write_text\<close> (\<open>can_write\<close> is
  false) is caught: the warning is printed and the configuration command is skipped.
  \<open>git config\<close> writes the repository's configuration, not \<open>.gitattributes\<close>.\<close>

definition setup_merge_protection :: "env \<Rightarrow> state \<Rightarrow> state" where
  "setup_merge_protection E st =
     (if gitattributes st = None then
        (if can_write E then
           snd (run_cmd E ''git config merge.ours.driver true'' True False
                  (say ProtectionCreated (st\<lparr>gitattributes := Some protection_content\<rparr>)))
         else say ProtectionFailed st)
      else snd (run_cmd E ''git config merge.ours.driver true'' True False st))"

section \<open>Fetching and resolving the change set\<close>

definition fetch_upstream :: "env \<Rightarrow> state \<Rightarrow> bool \<times> state" where
  "fetch_upstream E st =
     (case run_cmd E ''git fetch upstream'' True False (say Fetching st) of
        ((output, code), st1) \<Rightarrow>
          if code = 0 then
            (case run_cmd E ''git log -1 --oneline upstream/main'' True False st1 of
               ((latest_commit, code2), st2) \<Rightarrow> (True, say (FetchDone (take 60 latest_commit)) st2))
          else (False, say FetchFailed st1))"

definition diff_paths_cmd :: string where
  "diff_paths_cmd = ''git diff --name-only HEAD..upstream/main''"

text \<open>\<open>get_changed_files\<close>: the return code of the query is dropped.\<close>

definition get_changed_files :: "env \<Rightarrow> state \<Rightarrow> string list \<times> state" where
  "get_changed_files E st =
     (case run_cmd E diff_paths_cmd True False st of
        ((output, code), st1) \<Rightarrow> (filtered_files output, st1))"

section \<open>The operations of the menu\<close>

definition show_status :: "env \<Rightarrow> state \<Rightarrow> state" where
  "show_status E st = snd (run_cmd E ''git status'' False False (say StatusHeader st))"

text \<open>\<open>preview_changes\<close>: the loop over \<open>enumerate(files, 1)\<close>, then the function.
  The grouping by directory and the colouring of the diff only lay out the screen.\<close>

fun preview_loop :: "env \<Rightarrow> nat \<Rightarrow> nat \<Rightarrow> string list \<Rightarrow> state \<Rightarrow> outcome \<times> state" where
  "preview_loop E idx n [] st = (Returned, st)"
| "preview_loop E idx n (file # rest) st =
     (case run_cmd E (''git diff HEAD..upstream/main -- '' @ file) True True st of
        ((diff_output, code), st1) \<Rightarrow>
          (let st2 = say (if diff_output \<noteq> [] then DiffOf file diff_output
                          else NoTextChange file) st1 in
           if idx < n then
             (case read_input AskNextFile st2 of
                (None, st3) \<Rightarrow> (EOFError, st3)
              | (Some cont, st3) \<Rightarrow>
                  if lower cont = ''q'' then (Returned, st3)
                  else preview_loop E (Suc idx) n rest st3)
           else preview_loop E (Suc idx) n rest st2))"

definition preview_changes :: "env \<Rightarrow> string list \<Rightarrow> state \<Rightarrow> outcome \<times> state" where
  "preview_changes E files st =
     (if files = [] then (Returned, say NothingToUpdate st)
      else
        (case read_input AskViewDiffs (say (FoundFiles files) st) of
           (None, st1) \<Rightarrow> (EOFError, st1)
         | (Some preview, st1) \<Rightarrow>
             if lower preview \<noteq> ''y'' then (Returned, st1)
             else preview_loop E 1 (length files) files st1))"

text \<open>\<open>apply_all_changes\<close>: the merge, then the loop that restores the excluded paths.\<close>

definition merge_cmd :: string where
  "merge_cmd = ''git merge --no-commit --no-ff upstream/main''"

definition restore_cmd :: "string \<Rightarrow> string" where
  "restore_cmd pattern =
     (let clean = clean_pattern pattern in
      if suffix ''/'' clean then ''git checkout HEAD -- '' @ rstrip_chars ''/'' clean
      else ''git checkout HEAD -- '' @ clean)"

definition restore_excluded :: "env \<Rightarrow> state \<Rightarrow> state" where
  "restore_excluded E st =
     fold (\<lambda>pattern s. snd (run_cmd E (restore_cmd pattern) False False s)) excluded_patterns st"

definition apply_all_changes :: "env \<Rightarrow> string list \<Rightarrow> state \<Rightarrow> outcome \<times> state" where
  "apply_all_changes E files st =
     (if files = [] then (Returned, say NothingToUpdate st)
      else
        (case read_input AskConfirmAll (say (AboutToApply files) st) of
           (None, st1) \<Rightarrow> (EOFError, st1)
         | (Some confirm, st1) \<Rightarrow>
             if lower confirm \<noteq> ''y'' then (Returned, say Cancelled st1)
             else
               (case run_cmd E merge_cmd False False (say Applying st1) of
                  ((output, code), st2) \<Rightarrow>
                    if code \<noteq> 0 then (Returned, say MergeFailed st2)
                    else (Returned, show_status E (say Staged (restore_excluded E st2))))))"

text \<open>\<open>interactive_select\<close>: the dictionary \<open>file_map\<close> from \<open>str(i)\<close> to the
  \<open>i\<close>-th file, the loop over the tokens of one line, the loop that asks until a line
  is accepted, and the checkouts.\<close>

definition file_map :: "string list \<Rightarrow> (string \<rightharpoonup> string)" where
  "file_map files =
     fold (\<lambda>(i, file) m. m(str_nat i \<mapsto> file)) (enumerate 1 files) Map.empty"

fun parse_selection :: "(string \<rightharpoonup> string) \<Rightarrow> string list \<Rightarrow> string list \<Rightarrow> string + string list" where
  "parse_selection fm [] selected = Inr selected"
| "parse_selection fm (num # nums) selected =
     (case fm (strip num) of
        Some file \<Rightarrow> parse_selection fm nums (selected @ [file])
      | None \<Rightarrow> Inl (strip num))"

datatype selection = Quit | Chosen "string list" | NoInput

function select_loop :: "string list \<Rightarrow> state \<Rightarrow> selection \<times> state" where
  "select_loop files st =
     (case read_input AskSelection st of
        (None, st1) \<Rightarrow> (NoInput, st1)
      | (Some line, st1) \<Rightarrow>
          (let choice = strip line in
           if lower choice = ''q'' then (Quit, st1)
           else if lower choice = ''a'' then (Chosen files, st1)
           else
             (case parse_selection (file_map files) (split_on (CHR '','') choice) [] of
                Inl num \<Rightarrow> select_loop files (say (InvalidNumber num) st1)
              | Inr selected \<Rightarrow>
                  if selected \<noteq> [] then (Chosen selected, st1)
                  else select_loop files st1)))"
  by pat_completeness auto
termination
  by (relation "measure (\<lambda>(files, st). length (stdin st))")
     (auto simp: read_input_def say_def Let_def split: list.splits)

declare select_loop.simps [simp del]

definition checkout_cmd :: "string \<Rightarrow> string" where
  "checkout_cmd file = ''git checkout upstream/main -- '' @ file"

definition checkout_selected :: "env \<Rightarrow> string list \<Rightarrow> state \<Rightarrow> state" where
  "checkout_selected E selected st =
     fold (\<lambda>file s. snd (run_cmd E (checkout_cmd file) False False (say (UpdatingFile file) s)))
       selected st"

definition interactive_select :: "env \<Rightarrow> string list \<Rightarrow> state \<Rightarrow> outcome \<times> state" where
  "interactive_select E files st =
     (if files = [] then (Returned, say NothingToUpdate st)
      else
        (case select_loop files (say (ChooseFiles files) st) of
           (NoInput, st1) \<Rightarrow> (EOFError, st1)
         | (Quit, st1) \<Rightarrow> (Returned, st1)
         | (Chosen selected, st1) \<Rightarrow>
             (Returned,
              show_status E
                (say (UpdatedFiles (length selected))
                   (checkout_selected E selected (say ApplyingSelected st1))))))"

text \<open>\<open>check_conflicts\<close>. The editor is launched for the conflict files that exist; a
  failure of the launch is not modelled.\<close>

definition unmerged_cmd :: string where
  "unmerged_cmd = ''git diff --name-only --diff-filter=U''"

definition launch_editor :: "env \<Rightarrow> string list \<Rightarrow> state \<Rightarrow> state" where
  "launch_editor E conflict_files st =
     fold (\<lambda>file s. if file_exists E file then s\<lparr>trace := trace s @ [Launch file]\<rparr> else s)
       conflict_files st"

definition check_conflicts :: "env \<Rightarrow> state \<Rightarrow> outcome \<times> state" where
  "check_conflicts E st =
     (case run_cmd E unmerged_cmd True False (say CheckingConflicts st) of
        ((output, code), st1) \<Rightarrow>
          if output \<noteq> [] then
            (case read_input AskOpenEditor (say (ConflictsFound (all_files output)) st1) of
               (None, st2) \<Rightarrow> (EOFError, st2)
             | (Some open_editor, st2) \<Rightarrow>
                 if lower open_editor = ''y''
                 then (Returned, launch_editor E (all_files output) st2)
                 else (Returned, st2))
          else
            (case run_cmd E ''git status'' True False (say NoConflicts st1) of
               ((status_output, code2), st2) \<Rightarrow>
                 if sublist ''All conflicts fixed'' status_output
                 then (Returned, say AllConflictsFixed st2)
                 else (Returned, st2)))"

section \<open>The main loop\<close>

text \<open>One pass through the body of the \<open>while True\<close> of \<open>main_loop\<close> ends with
  \<open>continue\<close> (or the end of the body), with \<open>break\<close>, or with an exception.\<close>

datatype verdict = Continue | Break | Abort

definition add_remote_cmd :: string where
  "add_remote_cmd =
     ''git remote add upstream https://github.com/Shasnow/StarRailAssistant.git''"

text \<open>The check of the remote configuration at the head of the loop body.\<close>

definition ensure_remote :: "env \<Rightarrow> state \<Rightarrow> (verdict \<times> state) + state" where
  "ensure_remote E st =
     (case run_cmd E ''git remote -v'' True False st of
        ((remotes, code), st1) \<Rightarrow>
          if \<not> sublist ''upstream'' remotes then
            (case read_input AskAddRemote (say RemoteMissing st1) of
               (None, st2) \<Rightarrow> Inl (Abort, st2)
             | (Some line, st2) \<Rightarrow>
                 if lower line = ''y'' \<or> lower line = [] then
                   Inr (say RemoteAdded (snd (run_cmd E add_remote_cmd True False st2)))
                 else Inl (Continue, say AddRemoteManually st2))
          else Inr st1)"

text \<open>The fetch and the derivation of \<open>files\<close>, up to the summary.\<close>

definition resolve :: "env \<Rightarrow> state \<Rightarrow> (verdict \<times> state) + (string list \<times> state)" where
  "resolve E st =
     (case fetch_upstream E st of
        (fetched, st1) \<Rightarrow>
          if \<not> fetched then Inl (Break, say CannotContinue st1)
          else
            (case get_changed_files E st1 of
               (files, st2) \<Rightarrow>
                 Inr (files,
                      if files = [] then say (UpToDate (map clean_pattern excluded_patterns)) st2
                      else say (Summary files) st2)))"

text \<open>The dispatch on the operator's choice among the operations 1 to 5.\<close>

definition run_choice :: "env \<Rightarrow> string \<Rightarrow> string list \<Rightarrow> state \<Rightarrow> outcome \<times> state" where
  "run_choice E choice files st =
     (if choice = ''1'' then preview_changes E files st
      else if choice = ''2'' then apply_all_changes E files st
      else if choice = ''3'' then interactive_select E files st
      else if choice = ''4'' then check_conflicts E st
      else if choice = ''5'' then (Returned, show_status E st)
      else (Returned, say InvalidChoice st))"

text \<open>The end of the loop body: the hint after the choices 2 and 3, and the prompt that
  returns to the head of the loop or leaves it.\<close>

definition after_operation :: "string \<Rightarrow> state \<Rightarrow> verdict \<times> state" where
  "after_operation choice st =
     (case read_input AskReturn
             (if choice = ''2'' \<or> choice = ''3'' then say NextSteps st else st) of
        (None, st1) \<Rightarrow> (Abort, st1)
      | (Some cont, st1) \<Rightarrow>
          if strip cont = ''0'' then (Break, say Goodbye st1) else (Continue, st1))"

definition menu :: "env \<Rightarrow> string list \<Rightarrow> state \<Rightarrow> verdict \<times> state" where
  "menu E files st =
     (case read_input AskMenu st of
        (None, st1) \<Rightarrow> (Abort, st1)
      | (Some line, st1) \<Rightarrow>
          (let choice = strip line in
           if choice = ''0'' then (Break, say Goodbye st1)
           else if choice = ''6'' then (Continue, st1)
           else
             (case run_choice E choice files st1 of
                (EOFError, st2) \<Rightarrow> (Abort, st2)
              | (Returned, st2) \<Rightarrow> after_operation choice st2)))"

definition main_iter :: "env \<Rightarrow> state \<Rightarrow> verdict \<times> state" where
  "main_iter E st =
     (case ensure_remote E st of
        Inl r \<Rightarrow> r
      | Inr st1 \<Rightarrow>
          (case resolve E st1 of
             Inl r \<Rightarrow> r
           | Inr (files, st2) \<Rightarrow> menu E files st2))"

subsection \<open>Every operation only consumes operator input\<close>

lemma stdin_say [simp]: "stdin (say m st) = stdin st"
  by (simp add: say_def)

lemma stdin_run_cmd [simp]: "stdin (snd (run_cmd E cmd capture keep_color st)) = stdin st"
  by (simp add: run_cmd_def Let_def say_def split: reply.splits)

lemma stdin_run_cmd': "run_cmd E cmd capture keep_color st = (r, st') \<Longrightarrow> stdin st' = stdin st"
  using stdin_run_cmd [of E cmd capture keep_color st] by simp

lemma read_input_Some: "read_input p st = (Some line, st') \<Longrightarrow> stdin st = line # stdin st'"
  by (auto simp: read_input_def Let_def split: list.splits)

lemma read_input_None: "read_input p st = (None, st') \<Longrightarrow> stdin st' = stdin st"
  by (auto simp: read_input_def Let_def split: list.splits)

lemma read_input_le: "length (stdin (snd (read_input p st))) \<le> length (stdin st)"
  by (auto simp: read_input_def Let_def split: list.splits)

lemma stdin_show_status [simp]: "stdin (show_status E st) = stdin st"
  by (simp add: show_status_def)

lemma stdin_fold_keep:
  "(\<And>x s. stdin (f x s) = stdin s) \<Longrightarrow> stdin (fold f xs st) = stdin st"
  by (induction xs arbitrary: st) simp_all

lemma stdin_restore_excluded [simp]: "stdin (restore_excluded E st) = stdin st"
  by (simp add: restore_excluded_def stdin_fold_keep)

lemma stdin_checkout_selected [simp]: "stdin (checkout_selected E sel st) = stdin st"
  by (simp add: checkout_selected_def stdin_fold_keep)

lemma stdin_launch_editor [simp]: "stdin (launch_editor E fs st) = stdin st"
  by (simp add: launch_editor_def stdin_fold_keep)

lemma stdin_preview_loop:
  "length (stdin (snd (preview_loop E idx n files st))) \<le> length (stdin st)"
proof (induction files arbitrary: idx st)
  case Nil
  then show ?case by simp
next
  case (Cons f rest)
  show ?case
    apply (simp add: Let_def split: prod.splits option.splits)
    apply (intro allI impI conjI)
    apply (auto dest!: stdin_run_cmd' read_input_Some read_input_None
                intro: order_trans [OF Cons.IH] simp: le_Suc_eq)
    done
qed

lemma stdin_select_loop:
  "length (stdin (snd (select_loop files st))) \<le> length (stdin st)"
proof (induction "length (stdin st)" arbitrary: st rule: less_induct)
  case less
  obtain r st1 where r: "read_input AskSelection st = (r, st1)"
    by (cases "read_input AskSelection st")
  show ?case
  proof (cases r)
    case None
    with r show ?thesis
      by (subst select_loop.simps) (simp add: read_input_None)
  next
    case (Some line)
    with r have len: "length (stdin st) = Suc (length (stdin st1))"
      using read_input_Some by fastforce
    have a: "length (stdin (snd (select_loop files st1))) \<le> length (stdin st)"
      using less [of st1] len by simp
    have b: "length (stdin (snd (select_loop files (say m st1)))) \<le> length (stdin st)" for m
      using less [of "say m st1"] len by simp
    show ?thesis
      using r Some a b len
      by (subst select_loop.simps) (simp add: Let_def split: sum.splits)
  qed
qed

lemma stdin_preview_changes:
  "length (stdin (snd (preview_changes E files st))) \<le> length (stdin st)"
  using stdin_preview_loop [of E 1 "length files" files]
  apply (simp add: preview_changes_def split: prod.splits option.splits)
  apply (intro allI impI conjI)
  apply (auto dest!: read_input_Some read_input_None intro: order_trans simp: le_Suc_eq)
  done

lemma stdin_apply_all_changes:
  "length (stdin (snd (apply_all_changes E files st))) \<le> length (stdin st)"
  apply (simp add: apply_all_changes_def split: prod.splits option.splits)
  apply (intro allI impI conjI)
  apply (auto dest!: read_input_Some read_input_None stdin_run_cmd')
  done

lemma stdin_interactive_select:
  "length (stdin (snd (interactive_select E files st))) \<le> length (stdin st)"
  using stdin_select_loop [of files "say (ChooseFiles files) st"]
  by (auto simp: interactive_select_def split: prod.splits selection.splits)

lemma stdin_check_conflicts:
  "length (stdin (snd (check_conflicts E st))) \<le> length (stdin st)"
  apply (simp add: check_conflicts_def split: prod.splits option.splits)
  apply (intro allI impI conjI)
  apply (auto dest!: read_input_Some read_input_None stdin_run_cmd')
  done

lemma stdin_run_choice:
  "length (stdin (snd (run_choice E choice files st))) \<le> length (stdin st)"
  by (simp add: run_choice_def stdin_preview_changes stdin_apply_all_changes
        stdin_interactive_select stdin_check_conflicts)

lemma stdin_after_operation:
  "length (stdin (snd (after_operation choice st))) \<le> length (stdin st)"
  by (auto simp: after_operation_def split: prod.splits option.splits
        dest!: read_input_Some read_input_None)

lemma menu_consumes:
  assumes "menu E files st = (Continue, st')"
  shows "length (stdin st') < length (stdin st)"
proof -
  obtain r st1 where r: "read_input AskMenu st = (r, st1)"
    by (cases "read_input AskMenu st")
  with assms obtain line where line: "r = Some line"
    by (cases r) (auto simp: menu_def)
  with r have len: "length (stdin st) = Suc (length (stdin st1))"
    using read_input_Some by fastforce
  have "length (stdin st') \<le> length (stdin st1)"
    using assms r line stdin_run_choice [of E "strip line" files st1]
      stdin_after_operation [of "strip line" "snd (run_choice E (strip line) files st1)"]
    by (auto simp: menu_def Let_def split: if_splits prod.splits outcome.splits)
  with len show ?thesis by simp
qed

lemma stdin_fetch_upstream [simp]: "stdin (snd (fetch_upstream E st)) = stdin st"
  by (auto simp: fetch_upstream_def split: prod.splits dest!: stdin_run_cmd')

lemma stdin_get_changed_files [simp]: "stdin (snd (get_changed_files E st)) = stdin st"
  by (auto simp: get_changed_files_def split: prod.splits dest!: stdin_run_cmd')

lemma stdin_fetch_upstream': "fetch_upstream E st = (b, st') \<Longrightarrow> stdin st' = stdin st"
  using stdin_fetch_upstream [of E st] by simp

lemma stdin_get_changed_files':
  "get_changed_files E st = (fs, st') \<Longrightarrow> stdin st' = stdin st"
  using stdin_get_changed_files [of E st] by simp

lemma resolve_stdin:
  "resolve E st = Inr (files, st') \<Longrightarrow> stdin st' = stdin st"
  by (auto simp: resolve_def split: prod.splits if_splits
        dest!: stdin_fetch_upstream' stdin_get_changed_files')

lemma resolve_not_Continue: "resolve E st \<noteq> Inl (Continue, st')"
  by (auto simp: resolve_def split: prod.splits if_splits)

lemma ensure_remote_Inr:
  "ensure_remote E st = Inr st' \<Longrightarrow> length (stdin st') \<le> length (stdin st)"
  by (auto simp: ensure_remote_def split: prod.splits if_splits option.splits
        dest!: read_input_Some stdin_run_cmd')

lemma ensure_remote_Continue:
  "ensure_remote E st = Inl (Continue, st') \<Longrightarrow> length (stdin st') < length (stdin st)"
  by (auto simp: ensure_remote_def split: prod.splits if_splits option.splits
        dest!: read_input_Some stdin_run_cmd')

lemma main_iter_consumes:
  assumes "main_iter E st = (Continue, st')"
  shows "length (stdin st') < length (stdin st)"
proof (cases "ensure_remote E st")
  case (Inl r)
  with assms show ?thesis
    by (auto simp: main_iter_def dest: ensure_remote_Continue)
next
  case (Inr st1)
  note er = ensure_remote_Inr [OF Inr]
  show ?thesis
  proof (cases "resolve E st1")
    case (Inl r)
    with assms Inr show ?thesis
      by (auto simp: main_iter_def resolve_not_Continue)
  next
    case (Inr p)
    obtain files st2 where p: "p = (files, st2)" by (cases p)
    from Inr p have "stdin st2 = stdin st1" by (auto dest: resolve_stdin)
    moreover from assms \<open>ensure_remote E st = Inr st1\<close> Inr p
    have "menu E files st2 = (Continue, st')" by (simp add: main_iter_def)
    ultimately show ?thesis using er menu_consumes by fastforce
  qed
qed

text \<open>\<open>main_loop\<close>: the body is repeated until \<open>break\<close> or an exception. Every pass that
  continues has read a line of operator input, so on a finite input the loop ends; an
  exhausted input ends it with \<open>EOFError\<close>.\<close>

function main_loop :: "env \<Rightarrow> state \<Rightarrow> outcome \<times> state" where
  "main_loop E st =
     (case main_iter E st of
        (Continue, st1) \<Rightarrow> main_loop E st1
      | (Break, st1) \<Rightarrow> (Returned, st1)
      | (Abort, st1) \<Rightarrow> (EOFError, st1))"
  by pat_completeness auto
termination
  by (relation "measure (\<lambda>(E, st). length (stdin st))") (auto dest: main_iter_consumes [OF sym])

declare main_loop.simps [simp del]

text \<open>\<open>main\<close>: the checks of the environment, the constructor of \<open>UpstreamSync\<close> (which
  sets up the merge protection) and the loop; the result is the process exit code.\<close>

definition main :: "env \<Rightarrow> state \<Rightarrow> int \<times> state" where
  "main E st =
     (if \<not> in_repository E then (1, say NotARepository st)
      else if \<not> git_available E then (1, say GitUnavailable st)
      else
        (case main_loop E (setup_merge_protection E st) of
           (Returned, st1) \<Rightarrow> (0, st1)
         | (EOFError, st1) \<Rightarrow> (1, say ProgramError st1)))"

section \<open>The shell and the working copy\<close>

text \<open>
  \<open>run_cmd\<close> hands its command line to the shell (\<open>shell=True\<close>), and the program
  pastes file names into the line without quoting them. The shell splits the line into
  words at blanks; \<open>shell_words\<close> gives the words of a line that has no quoting,
  expansion or control character of the shell. A name is \<open>shell_plain\<close> if it is not
  empty and has none of the characters of \<open>shell_special\<close>: no blank, no line break
  and no character that the shell or the path arguments of the backend treat specially.
  Such a name is one word, and as a path argument it names itself.
\<close>

definition shell_words :: "string \<Rightarrow> string list" where
  "shell_words line =
     filter (\<lambda>w. w \<noteq> [])
       (split_on (CHR '' '') (map (\<lambda>c. if c = CHR 0x09 then CHR '' '' else c) line))"



text \<open>The reference and the path arguments of a command line of the form
  \<open>git checkout <ref> -- <paths>\<close>.\<close>

definition checkout_args :: "string \<Rightarrow> (string \<times> string list) option" where
  "checkout_args cmd =
     (case shell_words cmd of
        g # c # r # dd # paths \<Rightarrow>
          if g = ''git'' \<and> c = ''checkout'' \<and> dd = ''--'' then Some (r, paths) else None
      | _ \<Rightarrow> None)"

text \<open>A tree gives the content of every path that exists in it. A path argument names
  the path itself and everything below it.\<close>

type_synonym worktree = "string \<Rightarrow> string option"

definition in_scope :: "string \<Rightarrow> string \<Rightarrow> bool" where
  "in_scope pathspec q = (q = pathspec \<or> prefix (pathspec @ ''/'') q)"

text \<open>Modelled from the spec: the backend operation \<open>checkout(ref, paths)\<close> ``restores
  paths from ref into working copy''. A checkout that ends with return code 0 gives every
  path in the scope of one of its path arguments the content it has in the reference and
  leaves every other path as it is; a checkout that fails changes nothing. The effect of
  the merge is a parameter; the other commands of the program (fetch, log, diff, status,
  remote, config) do not change the working copy.\<close>

definition checkout_effect :: "worktree \<Rightarrow> string list \<Rightarrow> worktree \<Rightarrow> worktree" where
  "checkout_effect source paths wc =
     (\<lambda>q. if list_ex (\<lambda>p. in_scope p q) paths then source q else wc q)"

definition succeeded :: "reply \<Rightarrow> bool" where
  "succeeded r = (case r of Raised \<Rightarrow> False | Exited out code \<Rightarrow> code = 0)"

record repository =
  refs :: "string \<Rightarrow> worktree"
  merged :: "reply \<Rightarrow> worktree \<Rightarrow> worktree"

definition command_effect :: "repository \<Rightarrow> string \<Rightarrow> reply \<Rightarrow> worktree \<Rightarrow> worktree" where
  "command_effect R cmd r wc =
     (case checkout_args cmd of
        Some (ref, paths) \<Rightarrow> if succeeded r then checkout_effect (refs R ref) paths wc else wc
      | None \<Rightarrow> if cmd = merge_cmd then merged R r wc else wc)"

text \<open>The working copy after the commands \<open>cmds\<close>, issued after the history \<open>past\<close> and
  answered by the backend of \<open>E\<close>; and the working copy after the commands that a part of
  a run has issued, between its first state and its last.\<close>

fun replay :: "env \<Rightarrow> repository \<Rightarrow> string list \<Rightarrow> string list \<Rightarrow> worktree \<Rightarrow> worktree" where
  "replay E R past [] wc = wc"
| "replay E R past (c # cs) wc =
     replay E R (past @ [c]) cs (command_effect R c (backend E (past @ [c])) wc)"


section \<open>Notions used in the statements\<close>

text \<open>\<open>sep.join(parts)\<close> for a separator of one character, and the lines that the
  backend prints: every path followed by a newline.\<close>

fun join_with :: "char \<Rightarrow> string list \<Rightarrow> string" where
  "join_with sep [] = []"
| "join_with sep [p] = p"
| "join_with sep (p # q # ps) = p @ sep # join_with sep (q # ps)"

definition unlines :: "string list \<Rightarrow> string" where
  "unlines ps = concat (map (\<lambda>p. p @ [NL]) ps)"

text \<open>A plain path: not empty, without a line feed or a carriage return, and without
  white space at either end. \<open>printed eol ps\<close> is what a backend prints that ends every
  path of \<open>ps\<close> with the line ending \<open>eol\<close>.\<close>

definition plain_path :: "string \<Rightarrow> bool" where
  "plain_path p =
     (p \<noteq> [] \<and> NL \<notin> set p \<and> CR \<notin> set p \<and> \<not> is_space (hd p) \<and> \<not> is_space (last p))"

definition printed :: "string \<Rightarrow> string list \<Rightarrow> string" where
  "printed eol ps = concat (map (\<lambda>p. p @ eol) ps)"

text \<open>The characters of a decimal number.\<close>

definition is_digit :: "char \<Rightarrow> bool" where
  "is_digit c = (c \<in> set ''0123456789'')"


subsection \<open>Changing return codes\<close>

text \<open>\<open>recode f E\<close> is the environment \<open>E\<close> in which every command other than the fetch
  and the merge ends with the return code \<open>f cmd code\<close> instead of \<open>code\<close>; outputs and
  exceptions are those of \<open>E\<close>.\<close>

definition recode :: "(string \<Rightarrow> int \<Rightarrow> int) \<Rightarrow> env \<Rightarrow> env" where
  "recode f E =
     E\<lparr>backend := \<lambda>history.
          case backend E history of
            Raised \<Rightarrow> Raised
          | Exited out code \<Rightarrow>
              Exited out
                (if last history = ''git fetch upstream'' \<or> last history = merge_cmd
                 then code else f (last history) code)\<rparr>"

subsection \<open>Concrete backends and runs\<close>

text \<open>A backend given by a table from the command to its reply (every other command
  succeeds and prints nothing), an environment in which everything outside the backend
  works, and the state at the start of the program with the operator's lines.\<close>

definition scripted :: "(string \<times> reply) list \<Rightarrow> string list \<Rightarrow> reply" where
  "scripted table history =
     (case map_of table (last history) of Some r \<Rightarrow> r | None \<Rightarrow> Exited [] 0)"

definition env_of :: "(string list \<Rightarrow> reply) \<Rightarrow> env" where
  "env_of b = \<lparr>backend = b, can_write = True, in_repository = True, git_available = True,
               file_exists = (\<lambda>f. True)\<rparr>"

definition start :: "string list \<Rightarrow> state" where
  "start ins = \<lparr>gitattributes = None, trace = [], stdin = ins\<rparr>"

text \<open>A backend on which the remote is configured, the fetch succeeds, the diff reports
  one eligible file and the merge stops with return code 1.\<close>

definition conflict_backend :: "string list \<Rightarrow> reply" where
  "conflict_backend =
     scripted [(''git remote -v'', Exited ''upstream'' 0),
               (diff_paths_cmd, Exited (unlines [''src/a.txt'']) 0),
               (merge_cmd, Exited [] 1)]"

text \<open>A backend on which the remote is configured, every command succeeds and the diff
  reports one eligible file; and the environment in which, besides, the protection file
  cannot be written.\<close>

definition plain_backend :: "string list \<Rightarrow> reply" where
  "plain_backend =
     scripted [(''git remote -v'', Exited ''upstream'' 0),
               (diff_paths_cmd, Exited (unlines [''src/a.txt'']) 0)]"

definition unwritable_env :: env where
  "unwritable_env = (env_of plain_backend)\<lparr>can_write := False\<rparr>"

text \<open>Backends on which the remote is configured and the fetch succeeds: on the first the
  diff query fails with return code 128 and prints nothing, on the second it succeeds
  and prints nothing. On the third the fetch fails.\<close>

definition failing_diff_backend :: "string list \<Rightarrow> reply" where
  "failing_diff_backend =
     scripted [(''git remote -v'', Exited ''upstream'' 0), (diff_paths_cmd, Exited [] 128)]"

definition up_to_date_backend :: "string list \<Rightarrow> reply" where
  "up_to_date_backend =
     scripted [(''git remote -v'', Exited ''upstream'' 0), (diff_paths_cmd, Exited [] 0)]"

definition offline_backend :: "string list \<Rightarrow> reply" where
  "offline_backend =
     scripted [(''git remote -v'', Exited ''upstream'' 0), (''git fetch upstream'', Exited [] 1)]"

text \<open>A backend whose upstream advances: the first diff query reports one file, every
  later one reports two.\<close>

definition changing_backend :: "string list \<Rightarrow> reply" where
  "changing_backend history =
     (if last history = ''git remote -v'' then Exited ''upstream'' 0
      else if last history = diff_paths_cmd then
        (if count_list history diff_paths_cmd = 1 then Exited (unlines [''src/a.txt'']) 0
         else Exited (unlines [''src/a.txt'', ''src/b.txt'']) 0)
      else Exited [] 0)"





section \<open>Facts about the string operations\<close>

lemma split_on_not_Nil [simp]: "split_on sep s \<noteq> []"
  by (induction s) (auto split: list.splits)

lemma split_on_no_sep: "sep \<notin> set p \<Longrightarrow> split_on sep p = [p]"
  by (induction p) auto

lemma split_on_append_sep:
  "sep \<notin> set p \<Longrightarrow> split_on sep (p @ sep # rest) = p # split_on sep rest"
  by (induction p) auto

lemma split_on_join:
  "ps \<noteq> [] \<Longrightarrow> \<forall>p \<in> set ps. sep \<notin> set p \<Longrightarrow> split_on sep (join_with sep ps) = ps"
  by (induction sep ps rule: join_with.induct) (auto simp: split_on_no_sep split_on_append_sep)

lemma dropWhile_hd: "s \<noteq> [] \<Longrightarrow> \<not> P (hd s) \<Longrightarrow> dropWhile P s = s"
  by (cases s) auto

lemma strip_plain: "s \<noteq> [] \<Longrightarrow> \<not> is_space (hd s) \<Longrightarrow> \<not> is_space (last s) \<Longrightarrow> strip s = s"
  by (simp add: strip_def dropWhile_hd hd_rev)

lemma strip_plain_NL:
  assumes "s \<noteq> []" "\<not> is_space (hd s)" "\<not> is_space (last s)"
  shows "strip (s @ [NL]) = s"
proof -
  have "dropWhile is_space (s @ [NL]) = s @ [NL]"
    using assms by (intro dropWhile_hd) simp_all
  moreover have "dropWhile is_space (NL # rev s) = rev s"
    using assms by (simp add: is_space_def dropWhile_hd hd_rev)
  ultimately show ?thesis by (simp add: strip_def)
qed

lemma unlines_join: "ps \<noteq> [] \<Longrightarrow> unlines ps = join_with NL ps @ [NL]"
  by (induction NL ps rule: join_with.induct) (auto simp: unlines_def)

lemma join_with_hd:
  "ps \<noteq> [] \<Longrightarrow> \<forall>p \<in> set ps. p \<noteq> [] \<Longrightarrow>
   join_with sep ps \<noteq> [] \<and> hd (join_with sep ps) = hd (hd ps) \<and>
   last (join_with sep ps) = last (last ps)"
  by (induction sep ps rule: join_with.induct) auto

lemma strip_unlines:
  assumes "\<forall>p \<in> set ps. plain_path p"
  shows "strip (unlines ps) = join_with NL ps"
proof (cases ps)
  case Nil
  then show ?thesis by (simp add: unlines_def strip_def)
next
  case (Cons p qs)
  then have ne: "ps \<noteq> []" by simp
  have all_ne: "\<forall>p \<in> set ps. p \<noteq> []" using assms by (simp add: plain_path_def)
  note j = join_with_hd [OF ne all_ne, of NL]
  have "\<not> is_space (hd (hd ps))" "\<not> is_space (last (last ps))"
    using assms ne by (simp_all add: plain_path_def)
  with j show ?thesis
    by (simp add: unlines_join [OF ne] strip_plain_NL)
qed

lemma all_files_join:
  assumes "\<forall>p \<in> set ps. plain_path p"
  shows "all_files (join_with NL ps) = ps"
proof (cases "ps = []")
  case True
  then show ?thesis by (simp add: all_files_def strip_def)
next
  case False
  have "split_on NL (join_with NL ps) = ps"
    using False assms by (intro split_on_join) (auto simp: plain_path_def)
  moreover have "\<forall>p \<in> set ps. strip p = p"
    using assms by (auto simp: plain_path_def strip_plain)
  moreover have "\<forall>p \<in> set ps. p \<noteq> []"
    using assms by (auto simp: plain_path_def)
  ultimately show ?thesis
    by (simp add: all_files_def filter_id_conv map_idI)
qed

lemma filtered_files_eq:
  "filtered_files output = filter (\<lambda>file. \<not> is_excluded file) (all_files output)"
  by (simp add: filtered_files_def all_files_def strip_def)

section \<open>What the exclusion patterns match\<close>

lemma match_lits:
  "match_here (map Lit p @ as) b s =
     (prefix p s \<and> match_here as (b \<and> p = []) (drop (length p) s))"
proof (induction p arbitrary: b s)
  case Nil
  then show ?case by simp
next
  case (Cons c p)
  then show ?case by (cases s) auto
qed

lemma re_match_dir:
  "parse_re p = Some (Bol # map Lit d) \<Longrightarrow> re_match p f = prefix d f"
  using match_lits [of d "[]" True f] by (simp add: re_match_def)

lemma re_match_name:
  assumes "parse_re p = Some (Bol # map Lit d @ [Eol])"
  shows "re_match p f = (f = d \<or> f = d @ [NL])"
proof -
  have "re_match p f = (prefix d f \<and> (drop (length d) f = [] \<or> drop (length d) f = [NL]))"
    using assms match_lits [of d "[Eol]" True f] by (simp add: re_match_def)
  also have "\<dots> = (f = d \<or> f = d @ [NL])"
    by (auto simp: prefix_def)
  finally show ?thesis .
qed

lemma excluded_patterns_parse:
  "list_all (\<lambda>p. parse_re p \<noteq> None) excluded_patterns"
  by (simp add: excluded_patterns_def is_alnum_def)

text \<open>On any string: a directory pattern matches the strings that start with the
  directory and its slash; a file pattern matches the file name and, by the end anchor
  of \<open>re\<close>, the file name followed by one newline.\<close>

lemma is_excluded_iff:
  "is_excluded f =
     (prefix ''.github/'' f \<or> prefix ''SRAFrontend/'' f \<or> prefix ''setup/'' f \<or>
      f \<in> {''README.md'', ''package.py'', ''.gitignore'', ''.gitattributes''} \<or>
      f \<in> {''README.md'' @ [NL], ''package.py'' @ [NL], ''.gitignore'' @ [NL],
            ''.gitattributes'' @ [NL]})"
proof -
  have d1: "re_match (''^'' @ BS # ''.github/'') f = prefix ''.github/'' f"
    by (rule re_match_dir) (simp add: is_alnum_def)
  have d2: "re_match ''^SRAFrontend/'' f = prefix ''SRAFrontend/'' f"
    by (rule re_match_dir) simp
  have d3: "re_match ''^setup/'' f = prefix ''setup/'' f"
    by (rule re_match_dir) simp
  have n1: "re_match (''^README'' @ BS # ''.md$'') f = (f = ''README.md'' \<or> f = ''README.md'' @ [NL])"
    by (rule re_match_name) (simp add: is_alnum_def)
  have n2: "re_match (''^package'' @ BS # ''.py$'') f = (f = ''package.py'' \<or> f = ''package.py'' @ [NL])"
    by (rule re_match_name) (simp add: is_alnum_def)
  have n3: "re_match (''^'' @ BS # ''.gitignore$'') f = (f = ''.gitignore'' \<or> f = ''.gitignore'' @ [NL])"
    by (rule re_match_name) (simp add: is_alnum_def)
  have n4: "re_match (''^'' @ BS # ''.gitattributes$'') f =
      (f = ''.gitattributes'' \<or> f = ''.gitattributes'' @ [NL])"
    by (rule re_match_name) (simp add: is_alnum_def)
  show ?thesis
    unfolding is_excluded_def excluded_patterns_def list_ex_Cons_iff list_ex_Nil_iff
      d1 d2 d3 n1 n2 n3 n4 insert_iff empty_iff
    by (rule iffI; elim disjE; simp)
qed

text \<open>The paths that \<open>get_changed_files\<close> tests are stripped lines: none ends with a
  newline.\<close>

lemma strip_last: "strip s \<noteq> [] \<Longrightarrow> \<not> is_space (last (strip s))"
proof -
  assume ne: "strip s \<noteq> []"
  define t where "t = dropWhile is_space (rev (dropWhile is_space s))"
  have s: "strip s = rev t" by (simp add: strip_def t_def)
  with ne have "t \<noteq> []" by simp
  then have "\<not> is_space (hd t)" unfolding t_def by (rule hd_dropWhile)
  with \<open>t \<noteq> []\<close> show ?thesis by (simp add: s last_rev)
qed

lemma all_files_no_NL_end:
  assumes "f \<in> set (all_files output)"
  shows "f \<noteq> d @ [NL]"
proof
  assume eq: "f = d @ [NL]"
  from assms obtain g where g: "f = strip g" "strip g \<noteq> []"
    by (auto simp: all_files_def)
  from g(1) eq have "last (strip g) = NL" by (metis last_snoc)
  with strip_last [OF g(2)] show False by (simp add: is_space_def)
qed

text \<open>
  Claim C2. For every path of the backend's list that \<open>get_changed_files\<close> tests, some
  pattern matches it exactly when it starts with one of the excluded directories
  followed by the slash, or is one of the excluded file names: a path that only shares
  characters with a directory rule, and a path that only starts with or contains a file
  name, is not excluded.
\<close>

theorem exclusion_is_anchored:
  "f \<in> set (all_files output) \<Longrightarrow>
   is_excluded f =
     (prefix ''.github/'' f \<or> prefix ''SRAFrontend/'' f \<or> prefix ''setup/'' f \<or>
      f = ''README.md'' \<or> f = ''package.py'' \<or> f = ''.gitignore'' \<or> f = ''.gitattributes'')"
  using all_files_no_NL_end [of f "output" "''README.md''"]
    all_files_no_NL_end [of f "output" "''package.py''"]
    all_files_no_NL_end [of f "output" "''.gitignore''"]
    all_files_no_NL_end [of f "output" "''.gitattributes''"]
  by (simp add: is_excluded_iff)

section \<open>Concrete runs\<close>

lemmas string_eval =
  strip_def is_space_def lower_def lower_char_def capitals_def smalls_def
  strip_chars_def lstrip_chars_def rstrip_chars_def replace_str.simps clean_pattern_def

lemmas run_eval =
  run_cmd_def read_input_def say_def commands_def scripted_def env_of_def start_def
  Let_def

theorem exclusion_is_anchored_witness:
  "''setup/x.txt'' \<in> set (all_files (unlines [''setup/x.txt'', ''setup2/x.txt'', ''README.md'', ''README.md.bak'', ''docs/README.md''])) \<and>
   is_excluded ''setup/x.txt'' \<and> \<not> is_excluded ''setup2/x.txt'' \<and>
   is_excluded ''README.md'' \<and> \<not> is_excluded ''README.md.bak'' \<and>
   \<not> is_excluded ''docs/README.md''"
proof -
  let ?out = "unlines [''setup/x.txt'', ''setup2/x.txt'', ''README.md'', ''README.md.bak'', ''docs/README.md'']"
  have all: "all_files ?out = [''setup/x.txt'', ''setup2/x.txt'', ''README.md'', ''README.md.bak'', ''docs/README.md'']"
    by (simp add: all_files_def unlines_def strip_def is_space_def)
  have m: "''setup/x.txt'' \<in> set (all_files ?out)" "''setup2/x.txt'' \<in> set (all_files ?out)"
    "''README.md'' \<in> set (all_files ?out)" "''README.md.bak'' \<in> set (all_files ?out)"
    "''docs/README.md'' \<in> set (all_files ?out)"
    by (simp_all only: all) simp_all
  show ?thesis
    using m(1) exclusion_is_anchored [OF m(1)] exclusion_is_anchored [OF m(2)]
      exclusion_is_anchored [OF m(3)] exclusion_is_anchored [OF m(4)]
      exclusion_is_anchored [OF m(5)]
    by simp
qed

section \<open>The commands that an operation issues\<close>

lemma commands_append [simp]: "commands (xs @ ys) = commands xs @ commands ys"
  by (simp add: commands_def)

lemma commands_simps [simp]:
  "commands [] = []"
  "commands (Run c # tr) = c # commands tr"
  "commands (Ask p # tr) = commands tr"
  "commands (Say m # tr) = commands tr"
  "commands (Launch f # tr) = commands tr"
  by (simp_all add: commands_def)

lemma commands_say [simp]: "commands (trace (say m st)) = commands (trace st)"
  by (simp add: say_def)

lemma commands_run_cmd [simp]:
  "commands (trace (snd (run_cmd E cmd capture keep_color st))) = commands (trace st) @ [cmd]"
  by (simp add: run_cmd_def Let_def say_def split: reply.splits)

lemma commands_read_input [simp]:
  "commands (trace (snd (read_input p st))) = commands (trace st)"
  by (simp add: read_input_def Let_def split: list.splits)

lemma commands_fold_run:
  "commands (trace (fold (\<lambda>x s. snd (run_cmd E (g x) capture keep_color (h x s))) xs st)) =
     commands (trace st) @ map g xs"
  if "\<And>x s. commands (trace (h x s)) = commands (trace s)"
  using that by (induction xs arbitrary: st) simp_all

lemma commands_restore_excluded [simp]:
  "commands (trace (restore_excluded E st)) =
     commands (trace st) @ map restore_cmd excluded_patterns"
  unfolding restore_excluded_def
  using commands_fold_run [of "\<lambda>x s. s" E restore_cmd False False excluded_patterns st] by simp

lemma commands_checkout_selected [simp]:
  "commands (trace (checkout_selected E selected st)) =
     commands (trace st) @ map checkout_cmd selected"
  unfolding checkout_selected_def
  using commands_fold_run [of "\<lambda>x s. say (UpdatingFile x) s" E checkout_cmd False False selected st]
  by simp

lemma commands_show_status [simp]:
  "commands (trace (show_status E st)) = commands (trace st) @ [''git status'']"
  by (simp add: show_status_def)

lemma read_input_Cons:
  "stdin st = line # rest \<Longrightarrow>
   read_input p st = (Some line, st\<lparr>trace := trace st @ [Ask p], stdin := rest\<rparr>)"
  by (simp add: read_input_def Let_def)

lemma read_input_Nil:
  "stdin st = [] \<Longrightarrow> read_input p st = (None, st\<lparr>trace := trace st @ [Ask p]\<rparr>)"
  by (simp add: read_input_def Let_def)

lemma run_cmd_code:
  "backend E (commands (trace st) @ [cmd]) = Exited out code \<Longrightarrow>
   run_cmd E cmd capture keep_color st =
     ((if capture then (if keep_color then strip out else strip (universal_newlines out))
       else [], code), st\<lparr>trace := trace st @ [Run cmd]\<rparr>)"
  by (simp add: run_cmd_def Let_def)

lemma get_changed_files_reply:
  "backend E (commands (trace st) @ [diff_paths_cmd]) = Exited out code \<Longrightarrow>
   get_changed_files E st =
     (filtered_files (strip (universal_newlines out)),
      st\<lparr>trace := trace st @ [Run diff_paths_cmd]\<rparr>)"
  by (simp add: get_changed_files_def run_cmd_code)

lemma restore_cmds:
  "map restore_cmd excluded_patterns =
     [''git checkout HEAD -- .github'', ''git checkout HEAD -- SRAFrontend'',
      ''git checkout HEAD -- setup'', ''git checkout HEAD -- README.md'',
      ''git checkout HEAD -- package.py'', ''git checkout HEAD -- .gitignore'',
      ''git checkout HEAD -- .gitattributes'']"
  by (simp add: restore_cmd_def excluded_patterns_def string_eval suffix_def)

lemma clean_patterns:
  "map clean_pattern excluded_patterns =
     [''.github/'', ''SRAFrontend/'', ''setup/'', ''README.md'', ''package.py'',
      ''.gitignore'', ''.gitattributes'']"
  by (simp add: excluded_patterns_def string_eval)

lemma restore_excluded_cmds:
  "restore_excluded E st =
     fold (\<lambda>c s. snd (run_cmd E c False False s))
       [''git checkout HEAD -- .github'', ''git checkout HEAD -- SRAFrontend'',
        ''git checkout HEAD -- setup'', ''git checkout HEAD -- README.md'',
        ''git checkout HEAD -- package.py'', ''git checkout HEAD -- .gitignore'',
        ''git checkout HEAD -- .gitattributes''] st"
  unfolding restore_excluded_def restore_cmds [symmetric] by (simp add: fold_map o_def)

section \<open>The change set holds the reported paths that no pattern matches\<close>

lemma universal_newlines_Cons:
  "c \<noteq> CR \<Longrightarrow> universal_newlines (c # s) = c # universal_newlines s"
  "CR \<noteq> c \<Longrightarrow> universal_newlines (c # s) = c # universal_newlines s"
  by (cases s, auto)+

lemma universal_newlines_plain:
  "CR \<notin> set p \<Longrightarrow> universal_newlines (p @ s) = p @ universal_newlines s"
  by (induction p) (simp_all add: universal_newlines_Cons)

lemma universal_newlines_printed:
  assumes "\<forall>p \<in> set ps. CR \<notin> set p" and "eol = [NL] \<or> eol = [CR, NL]"
  shows "universal_newlines (printed eol ps) = unlines ps"
  using assms
  by (induction ps)
     (auto simp: printed_def unlines_def universal_newlines_plain universal_newlines_Cons)

text \<open>
  Claim C1, as the code has it. No path that \<open>get_changed_files\<close> returns is matched by
  an exclusion pattern. When the backend prints the plain paths \<open>ps\<close>, one per line
  with either line ending and with any return code, the result is \<open>ps\<close> without its
  excluded paths, in the order of \<open>ps\<close>. The patterns see a name as it is printed: a
  line that begins with a double quote is never excluded.
\<close>

theorem get_changed_files_plain_paths:
  "(\<forall>f \<in> set (fst (get_changed_files E st)). \<not> is_excluded f) \<and>
   ((\<forall>p \<in> set ps. plain_path p) \<and> (eol = [NL] \<or> eol = [CR, NL]) \<and>
    backend E (commands (trace st) @ [diff_paths_cmd]) = Exited (printed eol ps) code \<longrightarrow>
    fst (get_changed_files E st) = filter (\<lambda>f. \<not> is_excluded f) ps) \<and>
   \<not> is_excluded (CHR 0x22 # s)"
proof (intro conjI impI)
  show "\<forall>f \<in> set (fst (get_changed_files E st)). \<not> is_excluded f"
    by (simp add: get_changed_files_def filtered_files_eq split: prod.splits)
next
  assume a: "(\<forall>p \<in> set ps. plain_path p) \<and> (eol = [NL] \<or> eol = [CR, NL]) \<and>
    backend E (commands (trace st) @ [diff_paths_cmd]) = Exited (printed eol ps) code"
  then have wf: "\<forall>p \<in> set ps. plain_path p" and eol: "eol = [NL] \<or> eol = [CR, NL]"
    and rep: "backend E (commands (trace st) @ [diff_paths_cmd]) = Exited (printed eol ps) code"
    by simp_all
  from wf have "\<forall>p \<in> set ps. CR \<notin> set p" by (simp add: plain_path_def)
  then have un: "universal_newlines (printed eol ps) = unlines ps"
    using eol by (rule universal_newlines_printed)
  show "fst (get_changed_files E st) = filter (\<lambda>f. \<not> is_excluded f) ps"
    by (simp add: get_changed_files_reply [OF rep] un filtered_files_eq
          strip_unlines [OF wf] all_files_join [OF wf])
next
  show "\<not> is_excluded (CHR 0x22 # s)" by (simp add: is_excluded_iff)
qed

theorem get_changed_files_plain_paths_witness:
  "plain_path ''src/a.txt'' \<and> plain_path ''.github/workflows/ci.yml'' \<and>
   plain_path ''README.md'' \<and>
   backend (env_of (scripted [(diff_paths_cmd,
       Exited (printed [CR, NL] [''src/a.txt'', ''.github/workflows/ci.yml'', ''README.md'']) 1)]))
     (commands (trace (start [])) @ [diff_paths_cmd])
     = Exited (printed [CR, NL] [''src/a.txt'', ''.github/workflows/ci.yml'', ''README.md'']) 1 \<and>
   fst (get_changed_files
     (env_of (scripted [(diff_paths_cmd,
        Exited (printed [CR, NL] [''src/a.txt'', ''.github/workflows/ci.yml'', ''README.md'']) 1)]))
     (start [])) = [''src/a.txt'']"
proof -
  let ?ps = "[''src/a.txt'', ''.github/workflows/ci.yml'', ''README.md'']"
  let ?E = "env_of (scripted [(diff_paths_cmd, Exited (printed [CR, NL] ?ps) 1)])"
  have wf: "plain_path ''src/a.txt''" "plain_path ''.github/workflows/ci.yml''"
    "plain_path ''README.md''"
    by (simp_all add: plain_path_def is_space_def)
  then have all: "\<forall>p \<in> set ?ps. plain_path p" by simp
  have eol: "[CR, NL] = [NL] \<or> [CR, NL] = [CR, NL]" by simp
  have rep: "backend ?E (commands (trace (start [])) @ [diff_paths_cmd]) =
      Exited (printed [CR, NL] ?ps) 1"
    by (simp add: run_eval)
  have "fst (get_changed_files ?E (start [])) = filter (\<lambda>f. \<not> is_excluded f) ?ps"
    by (rule get_changed_files_plain_paths [of ?E "start []" ?ps "[CR, NL]" 1,
          THEN conjunct2, THEN conjunct1, THEN mp])
       (rule conjI [OF all conjI [OF eol rep]])
  also have "\<dots> = [''src/a.txt'']"
    by (simp add: is_excluded_iff)
  finally show ?thesis using wf rep by (intro conjI)
qed

text \<open>The claim as stated fails: the backend reports the path \<open>README.md\<close> followed by
  a space, which no pattern matches, and the path is missing from the result, because
  the line is stripped before it is matched.\<close>

theorem stripped_path_counterexample:
  "\<not> is_excluded ''README.md '' \<and>
   fst (get_changed_files
     (env_of (scripted [(diff_paths_cmd, Exited (unlines [''README.md '', ''src/a.txt'']) 0)]))
     (start [])) = [''src/a.txt'']"
  by (simp add: is_excluded_iff get_changed_files_def filtered_files_def all_files_def
        unlines_def diff_paths_cmd_def run_eval string_eval)

section \<open>Setting up the merge protection twice\<close>

lemma gitattributes_say [simp]: "gitattributes (say m st) = gitattributes st"
  by (simp add: say_def)

lemma gitattributes_run_cmd [simp]:
  "gitattributes (snd (run_cmd E cmd capture keep_color st)) = gitattributes st"
  by (simp add: run_cmd_def Let_def say_def split: reply.splits)

lemma fold_append_content:
  "fold (\<lambda>pattern content. content @ g pattern) ps h = h @ concat (map g ps)"
  by (induction ps arbitrary: h) simp_all

lemma directives:
  "map directive excluded_patterns =
     [''.github/* merge=ours'' @ [NL], ''SRAFrontend/* merge=ours'' @ [NL],
      ''setup/* merge=ours'' @ [NL], ''README.md merge=ours'' @ [NL],
      ''package.py merge=ours'' @ [NL], ''.gitignore merge=ours'' @ [NL],
      ''.gitattributes merge=ours'' @ [NL]]"
  by (simp add: directive_def excluded_patterns_def string_eval suffix_def)

lemma gitattributes_setup:
  "gitattributes (setup_merge_protection E st) =
     (case gitattributes st of
        Some c \<Rightarrow> Some c
      | None \<Rightarrow> if can_write E then Some protection_content else None)"
  by (simp add: setup_merge_protection_def split: option.splits)

text \<open>
  Claim C4. If \<open>.gitattributes\<close> exists, \<open>_setup_merge_protection\<close> leaves its content as
  it is. A second run leaves the file as the first run left it: in the same environment
  always, and whenever the file exists after the first run. The content written into a
  missing file is the header followed by one line per pattern, in the order of the
  patterns: seven lines, all different.
\<close>

theorem setup_merge_protection_idempotent:
  "(gitattributes st = Some c \<longrightarrow> gitattributes (setup_merge_protection E st) = Some c) \<and>
   gitattributes (setup_merge_protection E (setup_merge_protection E st)) =
     gitattributes (setup_merge_protection E st) \<and>
   (gitattributes (setup_merge_protection E st) \<noteq> None \<longrightarrow>
      gitattributes (setup_merge_protection E' (setup_merge_protection E st)) =
        gitattributes (setup_merge_protection E st)) \<and>
   (gitattributes st = None \<and> can_write E \<longrightarrow>
      gitattributes (setup_merge_protection E st) =
        Some (protection_header @ concat (map directive excluded_patterns))) \<and>
   length (map directive excluded_patterns) = length excluded_patterns \<and>
   distinct (map directive excluded_patterns)"
proof -
  have content: "protection_content = protection_header @ concat (map directive excluded_patterns)"
    by (simp add: protection_content_def fold_append_content)
  have dis: "distinct (map directive excluded_patterns)"
    unfolding directives by simp
  show ?thesis
    using dis by (auto simp: gitattributes_setup content split: option.splits)
qed

theorem setup_merge_protection_idempotent_witness:
  "gitattributes (start []\<lparr>gitattributes := Some ''* text=auto''\<rparr>) = Some ''* text=auto'' \<and>
   gitattributes (setup_merge_protection (env_of (scripted []))
      (start []\<lparr>gitattributes := Some ''* text=auto''\<rparr>)) = Some ''* text=auto'' \<and>
   gitattributes (start []) = None \<and> can_write (env_of (scripted [])) \<and>
   gitattributes (setup_merge_protection (env_of (scripted []))
      (setup_merge_protection (env_of (scripted [])) (start []))) =
     Some (protection_header @
       ''.github/* merge=ours'' @ [NL] @ ''SRAFrontend/* merge=ours'' @ [NL] @
       ''setup/* merge=ours'' @ [NL] @ ''README.md merge=ours'' @ [NL] @
       ''package.py merge=ours'' @ [NL] @ ''.gitignore merge=ours'' @ [NL] @
       ''.gitattributes merge=ours'' @ [NL])"
proof -
  let ?E = "env_of (scripted [])"
  let ?s = "start []\<lparr>gitattributes := Some ''* text=auto''\<rparr>"
  have a: "gitattributes ?s = Some ''* text=auto''" by simp
  have b: "gitattributes (start []) = None" "can_write ?E"
    by (simp_all add: start_def env_of_def)
  note t1 = setup_merge_protection_idempotent [of ?s "''* text=auto''" ?E ?E]
  note t2 = setup_merge_protection_idempotent [of "start []" "[]" ?E ?E]
  from t1 a have c: "gitattributes (setup_merge_protection ?E ?s) = Some ''* text=auto''"
    by (simp only: simp_thms)
  from t2 b have d: "gitattributes (setup_merge_protection ?E (setup_merge_protection ?E (start [])))
      = Some (protection_header @ concat (map directive excluded_patterns))"
    by (simp only: simp_thms)
  show ?thesis
    using a b c d by (simp add: directives)
qed

section \<open>Decimal numbers and the dictionary of the selection\<close>

lemma digit_char_inj: "a < 10 \<Longrightarrow> b < 10 \<Longrightarrow> digit_char a = digit_char b \<Longrightarrow> a = b"
  unfolding digit_char_def
  by (subst (asm) nth_eq_iff_index_eq) simp_all

lemma digit_char_digit: "d < 10 \<Longrightarrow> is_digit (digit_char d)"
  unfolding digit_char_def is_digit_def by (rule nth_mem) simp

lemma str_nat_not_Nil [simp]: "str_nat n \<noteq> []" "[] \<noteq> str_nat n"
  by (subst str_nat.simps, simp)+

lemma str_nat_digits: "\<forall>c \<in> set (str_nat n). is_digit c"
proof (induction n rule: str_nat.induct)
  case (1 n)
  show ?case
  proof (cases "n < 10")
    case True
    then show ?thesis by (subst str_nat.simps) (simp add: digit_char_digit)
  next
    case False
    with 1 show ?thesis by (subst str_nat.simps) (simp add: digit_char_digit)
  qed
qed

lemma str_nat_inj: "str_nat m = str_nat n \<Longrightarrow> m = n"
proof (induction m arbitrary: n rule: str_nat.induct)
  case (1 m)
  show ?case
  proof (cases "m < 10")
    case m: True
    show ?thesis
    proof (cases "n < 10")
      case True
      with m 1(2) show ?thesis
        by (simp add: str_nat.simps [of m] str_nat.simps [of n] digit_char_inj)
    next
      case False
      with m 1(2) show ?thesis
        by (simp add: str_nat.simps [of m] str_nat.simps [of n])
    qed
  next
    case m: False
    show ?thesis
    proof (cases "n < 10")
      case True
      with m 1(2) show ?thesis
        by (simp add: str_nat.simps [of m] str_nat.simps [of n])
    next
      case False
      with m 1(2) have "str_nat (m div 10) = str_nat (n div 10)"
        and d: "digit_char (m mod 10) = digit_char (n mod 10)"
        by (simp_all add: str_nat.simps [of m] str_nat.simps [of n])
      with 1(1) m have "m div 10 = n div 10" by simp
      moreover from d have "m mod 10 = n mod 10" by (intro digit_char_inj) simp_all
      ultimately show ?thesis by (metis div_mult_mod_eq)
    qed
  qed
qed

lemma file_map_snoc:
  "file_map (files @ [f]) = (file_map files)(str_nat (Suc (length files)) \<mapsto> f)"
  by (simp add: file_map_def enumerate_append_eq)

lemma file_map_index:
  "1 \<le> i \<Longrightarrow> i \<le> length files \<Longrightarrow> file_map files (str_nat i) = Some (files ! (i - 1))"
proof (induction files rule: rev_induct)
  case Nil
  then show ?case by simp
next
  case (snoc f files)
  show ?case
  proof (cases "i = Suc (length files)")
    case True
    then show ?thesis by (simp add: file_map_snoc)
  next
    case False
    with snoc.prems have le: "i \<le> length files" by simp
    from False have "str_nat i \<noteq> str_nat (Suc (length files))" using str_nat_inj by blast
    with snoc.IH [OF snoc.prems(1) le] le snoc.prems(1) show ?thesis
      by (auto simp: file_map_snoc nth_append)
  qed
qed

lemma file_map_Some:
  "file_map files k = Some f \<Longrightarrow> \<exists>i. 1 \<le> i \<and> i \<le> length files \<and> k = str_nat i"
proof (induction files rule: rev_induct)
  case Nil
  then show ?case by (simp add: file_map_def)
next
  case (snoc g files)
  show ?case
  proof (cases "k = str_nat (Suc (length files))")
    case True
    then show ?thesis by (intro exI [of _ "Suc (length files)"]) simp
  next
    case False
    with snoc.prems have "file_map files k = Some f" by (simp add: file_map_snoc)
    from snoc.IH [OF this] show ?thesis by auto
  qed
qed

lemma dom_file_map: "dom (file_map files) = str_nat ` {1..length files}"
proof (intro equalityI subsetI)
  fix k assume "k \<in> dom (file_map files)"
  then obtain f where "file_map files k = Some f" by auto
  from file_map_Some [OF this] show "k \<in> str_nat ` {1..length files}" by auto
next
  fix k assume "k \<in> str_nat ` {1..length files}"
  then obtain i where "1 \<le> i" "i \<le> length files" "k = str_nat i" by auto
  then show "k \<in> dom (file_map files)" using file_map_index by auto
qed

section \<open>Reading one line of the selection\<close>

lemma parse_selection_valid:
  "\<forall>tok \<in> set toks. fm (strip tok) \<noteq> None \<Longrightarrow>
   parse_selection fm toks acc = Inr (acc @ map (\<lambda>tok. the (fm (strip tok))) toks)"
  by (induction toks arbitrary: acc) auto

lemma parse_selection_invalid:
  "\<exists>tok \<in> set toks. fm (strip tok) = None \<Longrightarrow>
   \<exists>bad. parse_selection fm toks acc = Inl bad \<and> fm bad = None"
proof (induction toks arbitrary: acc)
  case Nil
  then show ?case by simp
next
  case (Cons tok toks)
  show ?case
  proof (cases "fm (strip tok)")
    case None
    then show ?thesis by simp
  next
    case (Some f)
    with Cons.prems have "\<exists>t \<in> set toks. fm (strip t) = None" by auto
    from Cons.IH [OF this, of "acc @ [f]"] Some show ?thesis by simp
  qed
qed

lemma is_digit_not_space: "is_digit c \<Longrightarrow> \<not> is_space c"
  unfolding is_digit_def by (simp add: is_space_def) (elim disjE; simp)

lemma is_digit_lower: "is_digit c \<Longrightarrow> lower_char c = c"
  unfolding is_digit_def
  by (simp, elim disjE; simp add: lower_char_def capitals_def smalls_def)

lemma strip_str_nat [simp]: "strip (str_nat i) = str_nat i"
proof (rule strip_plain)
  show "str_nat i \<noteq> []" by simp
  show "\<not> is_space (hd (str_nat i))" "\<not> is_space (last (str_nat i))"
    using str_nat_digits [of i] by (simp_all add: is_digit_not_space)
qed

section \<open>The loop that asks for a selection\<close>

text \<open>Which selection the loop ends with depends on the operator's lines only, and the
  loop issues no command.\<close>

lemma select_loop_fst_stdin:
  "stdin st = stdin st' \<Longrightarrow> fst (select_loop files st) = fst (select_loop files st')"
proof (induction "length (stdin st)" arbitrary: st st' rule: less_induct)
  case less
  show ?case
  proof (cases "stdin st")
    case Nil
    with less.prems have "stdin st' = []" by simp
    with Nil show ?thesis
      by (simp add: select_loop.simps [of files st] select_loop.simps [of files st']
            read_input_Nil)
  next
    case (Cons line rest)
    with less.prems have c': "stdin st' = line # rest" by simp
    have IH: "fst (select_loop files u) = fst (select_loop files v)"
      if "stdin u = rest" "stdin v = rest" for u v
      using less.hyps [of u v] that Cons by simp
    show ?thesis
      by (auto simp: select_loop.simps [of files st] select_loop.simps [of files st']
            read_input_Cons [OF Cons] read_input_Cons [OF c'] Let_def
            split: sum.splits intro!: IH)
  qed
qed

lemma commands_select_loop [simp]:
  "commands (trace (snd (select_loop files st))) = commands (trace st)"
proof (induction "length (stdin st)" arbitrary: st rule: less_induct)
  case less
  show ?case
  proof (cases "stdin st")
    case Nil
    then show ?thesis
      by (simp add: select_loop.simps [of files st] read_input_Nil)
  next
    case (Cons line rest)
    have IH: "commands (trace (snd (select_loop files u))) = commands (trace u)"
      if "stdin u = rest" for u
      using less.hyps [of u] that Cons by simp
    show ?thesis
      by (auto simp: select_loop.simps [of files st] read_input_Cons [OF Cons] Let_def IH
            split: sum.splits)
  qed
qed

lemma interactive_select_commands:
  "files \<noteq> [] \<Longrightarrow>
   commands (trace (snd (interactive_select E files st))) =
     commands (trace st) @
     (case fst (select_loop files st) of
        Chosen selected \<Rightarrow> map checkout_cmd selected @ [''git status'']
      | Quit \<Rightarrow> []
      | NoInput \<Rightarrow> [])"
proof -
  assume ne: "files \<noteq> []"
  let ?s = "say (ChooseFiles files) st"
  obtain r st1 where sl: "select_loop files ?s = (r, st1)" by (cases "select_loop files ?s")
  have r: "fst (select_loop files st) = r"
    using select_loop_fst_stdin [of st ?s files] sl by simp
  have c: "commands (trace st1) = commands (trace st)"
    using commands_select_loop [of files ?s] sl by simp
  show ?thesis
    using ne by (cases r) (simp_all add: interactive_select_def sl r c)
qed

text \<open>What one line does to the loop.\<close>

lemma select_loop_valid:
  assumes "stdin st = line # rest"
    and "lower (strip line) \<noteq> ''q''" and "lower (strip line) \<noteq> ''a''"
    and "\<forall>tok \<in> set (split_on (CHR '','') (strip line)). file_map files (strip tok) \<noteq> None"
  shows "select_loop files st =
           (Chosen (map (\<lambda>tok. the (file_map files (strip tok)))
                      (split_on (CHR '','') (strip line))),
            st\<lparr>trace := trace st @ [Ask AskSelection], stdin := rest\<rparr>)"
proof -
  have "split_on (CHR '','') (strip line) \<noteq> []" by simp
  then show ?thesis
    using assms(2,3) parse_selection_valid [OF assms(4), of "[]"]
    by (simp add: select_loop.simps [of files st] read_input_Cons [OF assms(1)] Let_def)
qed

lemma select_loop_invalid:
  assumes "stdin st = line # rest"
    and "lower (strip line) \<noteq> ''q''" and "lower (strip line) \<noteq> ''a''"
    and "\<exists>tok \<in> set (split_on (CHR '','') (strip line)). file_map files (strip tok) = None"
  shows "\<exists>bad. file_map files bad = None \<and>
           select_loop files st =
             select_loop files
               (say (InvalidNumber bad)
                  (st\<lparr>trace := trace st @ [Ask AskSelection], stdin := rest\<rparr>))"
proof -
  from parse_selection_invalid [OF assms(4), of "[]"] obtain bad
    where "parse_selection (file_map files) (split_on (CHR '','') (strip line)) [] = Inl bad"
      and "file_map files bad = None" by blast
  then show ?thesis
    using assms(2,3)
    by (intro exI [of _ bad])
       (simp add: select_loop.simps [of files st] read_input_Cons [OF assms(1)] Let_def)
qed

section \<open>A line of valid indices\<close>

lemma lower_digit_line:
  assumes "s \<noteq> []" and "is_digit (hd s)"
  shows "lower s \<noteq> ''q''" and "lower s \<noteq> ''a''"
proof -
  from assms obtain c cs where s: "s = c # cs" and d: "is_digit c" by (cases s) auto
  from d have "lower_char c = c" by (rule is_digit_lower)
  moreover from d have "c \<noteq> CHR ''q''" "c \<noteq> CHR ''a''" by (auto simp: is_digit_def)
  ultimately show "lower s \<noteq> ''q''" and "lower s \<noteq> ''a''" by (simp_all add: s lower_def)
qed

lemma index_line:
  assumes "idxs \<noteq> []"
  defines "line \<equiv> join_with (CHR '','') (map str_nat idxs)"
  shows "strip line = line" and "lower line \<noteq> ''q''" and "lower line \<noteq> ''a''"
    and "split_on (CHR '','') line = map str_nat idxs"
proof -
  have ne: "map str_nat idxs \<noteq> []" using assms(1) by simp
  have all_ne: "\<forall>p \<in> set (map str_nat idxs). p \<noteq> []" by simp
  note j = join_with_hd [OF ne all_ne, of "CHR '',''", folded line_def]
  have h: "is_digit (hd line)" "is_digit (last line)"
    using j str_nat_digits [of "hd idxs"] str_nat_digits [of "last idxs"] assms(1)
    by (simp_all add: hd_map last_map)
  with j show "strip line = line" by (intro strip_plain) (simp_all add: is_digit_not_space)
  have lne: "line \<noteq> []" by (rule j [THEN conjunct1])
  show "lower line \<noteq> ''q''" by (rule lower_digit_line(1) [OF lne h(1)])
  show "lower line \<noteq> ''a''" by (rule lower_digit_line(2) [OF lne h(1)])
  have "CHR '','' \<notin> set (str_nat i)" for i
  proof
    assume "CHR '','' \<in> set (str_nat i)"
    then have "is_digit (CHR '','')" by (rule str_nat_digits [THEN bspec])
    then show False by (simp add: is_digit_def)
  qed
  then have "\<forall>p \<in> set (map str_nat idxs). CHR '','' \<notin> set p" by simp
  with ne show "split_on (CHR '','') line = map str_nat idxs"
    unfolding line_def by (rule split_on_join)
qed

lemma interactive_select_indices:
  assumes ne: "idxs \<noteq> []" and range: "\<forall>i \<in> set idxs. 1 \<le> i \<and> i \<le> length files"
    and inp: "stdin st = join_with (CHR '','') (map str_nat idxs) # rest"
  shows "commands (trace (snd (interactive_select E files st))) =
      commands (trace st) @ map (\<lambda>i. checkout_cmd (files ! (i - 1))) idxs @ [''git status'']"
proof -
  let ?line = "join_with (CHR '','') (map str_nat idxs)"
  note l = index_line [OF ne]
  from ne range have files: "files \<noteq> []" by (cases idxs) auto
  have toks: "split_on (CHR '','') (strip ?line) = map str_nat idxs"
    by (simp only: l(1) l(4))
  have valid: "\<forall>tok \<in> set (split_on (CHR '','') (strip ?line)).
      file_map files (strip tok) \<noteq> None"
    unfolding toks using range by (auto simp: file_map_index)
  have sel: "map (\<lambda>tok. the (file_map files (strip tok))) (split_on (CHR '','') (strip ?line)) =
      map (\<lambda>i. files ! (i - 1)) idxs"
    unfolding toks using range by (simp add: file_map_index)
  have nq: "lower (strip ?line) \<noteq> ''q''" and na: "lower (strip ?line) \<noteq> ''a''"
    by (simp_all only: l(1) l(2) l(3) not_False_eq_True)
  have "select_loop files st =
      (Chosen (map (\<lambda>i. files ! (i - 1)) idxs),
       st\<lparr>trace := trace st @ [Ask AskSelection], stdin := rest\<rparr>)"
    using select_loop_valid [OF inp nq na valid] by (simp only: sel)
  then have "fst (select_loop files st) = Chosen (map (\<lambda>i. files ! (i - 1)) idxs)"
    by simp
  then show ?thesis
    by (simp add: interactive_select_commands [OF files] o_def)
qed



section \<open>A line of the selection is accepted whole or not at all\<close>

text \<open>
  Claim C10. The keys of \<open>file_map\<close> are the decimal numbers from 1 to the number of
  files. For a line that is neither \<open>q\<close> nor \<open>a\<close> and a change set that is not empty:
  if some token of the line is not such a key, the loop reports one invalid token and
  asks again with the remaining lines, and the commands of apply-selected are those of
  the run on the remaining lines alone, so the line causes no checkout; if every token is
  a key, the commands are the checkouts of the files the tokens name, then the status
  query.
\<close>

theorem selection_is_atomic:
  assumes "files \<noteq> []" and "stdin st = line # rest"
    and "lower (strip line) \<noteq> ''q''" and "lower (strip line) \<noteq> ''a''"
  shows "dom (file_map files) = str_nat ` {1..length files} \<and>
    ((\<exists>tok \<in> set (split_on (CHR '','') (strip line)). strip tok \<notin> dom (file_map files)) \<longrightarrow>
       (\<exists>bad. bad \<notin> dom (file_map files) \<and>
          select_loop files st =
            select_loop files
              (say (InvalidNumber bad)
                 (st\<lparr>trace := trace st @ [Ask AskSelection], stdin := rest\<rparr>))) \<and>
       commands (trace (snd (interactive_select E files st))) =
         commands (trace (snd (interactive_select E files (st\<lparr>stdin := rest\<rparr>))))) \<and>
    ((\<forall>tok \<in> set (split_on (CHR '','') (strip line)). strip tok \<in> dom (file_map files)) \<longrightarrow>
       commands (trace (snd (interactive_select E files st))) =
         commands (trace st) @
         map (\<lambda>tok. checkout_cmd (the (file_map files (strip tok))))
           (split_on (CHR '','') (strip line)) @
         [''git status''])"
proof (intro conjI impI)
  show "dom (file_map files) = str_nat ` {1..length files}" by (rule dom_file_map)
next
  assume "\<exists>tok \<in> set (split_on (CHR '','') (strip line)). strip tok \<notin> dom (file_map files)"
  then have inv: "\<exists>tok \<in> set (split_on (CHR '','') (strip line)).
      file_map files (strip tok) = None"
    by (simp add: domIff)
  let ?st1 = "st\<lparr>trace := trace st @ [Ask AskSelection], stdin := rest\<rparr>"
  from select_loop_invalid [OF assms(2,3,4) inv] obtain bad
    where bad: "file_map files bad = None"
      and step: "select_loop files st = select_loop files (say (InvalidNumber bad) ?st1)"
    by blast
  from bad step
  show "\<exists>bad. bad \<notin> dom (file_map files) \<and>
          select_loop files st = select_loop files (say (InvalidNumber bad) ?st1)"
    by (intro exI [of _ bad]) (simp add: domIff)
  have "fst (select_loop files st) = fst (select_loop files (st\<lparr>stdin := rest\<rparr>))"
    unfolding step by (rule select_loop_fst_stdin) simp
  then show "commands (trace (snd (interactive_select E files st))) =
         commands (trace (snd (interactive_select E files (st\<lparr>stdin := rest\<rparr>))))"
    by (simp add: interactive_select_commands [OF assms(1)])
next
  assume "\<forall>tok \<in> set (split_on (CHR '','') (strip line)). strip tok \<in> dom (file_map files)"
  then have val: "\<forall>tok \<in> set (split_on (CHR '','') (strip line)).
      file_map files (strip tok) \<noteq> None"
    by (simp add: domIff)
  from select_loop_valid [OF assms(2,3,4) val]
  have "fst (select_loop files st) =
      Chosen (map (\<lambda>tok. the (file_map files (strip tok))) (split_on (CHR '','') (strip line)))"
    by simp
  then show "commands (trace (snd (interactive_select E files st))) =
         commands (trace st) @
         map (\<lambda>tok. checkout_cmd (the (file_map files (strip tok))))
           (split_on (CHR '','') (strip line)) @
         [''git status'']"
    by (simp add: interactive_select_commands [OF assms(1)] o_def)
qed

theorem selection_is_atomic_witness:
  "[''a.py'', ''b.py'', ''c.py''] \<noteq> [] \<and>
   stdin (start [''1,x,3'', ''q'']) = ''1,x,3'' # [''q''] \<and>
   lower (strip ''1,x,3'') \<noteq> ''q'' \<and> lower (strip ''1,x,3'') \<noteq> ''a'' \<and>
   ''x'' \<in> set (split_on (CHR '','') (strip ''1,x,3'')) \<and>
   strip ''x'' \<notin> dom (file_map [''a.py'', ''b.py'', ''c.py'']) \<and>
   commands (trace (snd (interactive_select (env_of (scripted []))
       [''a.py'', ''b.py'', ''c.py''] (start [''1,x,3'', ''q''])))) = [] \<and>
   stdin (start [''1, 3'']) = ''1, 3'' # [] \<and>
   lower (strip ''1, 3'') \<noteq> ''q'' \<and> lower (strip ''1, 3'') \<noteq> ''a'' \<and>
   list_all (\<lambda>tok. strip tok \<in> dom (file_map [''a.py'', ''b.py'', ''c.py'']))
     (split_on (CHR '','') (strip ''1, 3'')) \<and>
   commands (trace (snd (interactive_select (env_of (scripted []))
       [''a.py'', ''b.py'', ''c.py''] (start [''1, 3''])))) =
     [''git checkout upstream/main -- a.py'', ''git checkout upstream/main -- c.py'',
      ''git status'']"
proof -
  let ?E = "env_of (scripted [])"
  let ?fs = "[''a.py'', ''b.py'', ''c.py'']"
  have fm: "file_map ?fs ''1'' = Some ''a.py''" "file_map ?fs ''3'' = Some ''c.py''"
    "file_map ?fs ''x'' = None"
    by (simp_all add: file_map_def str_nat.simps digit_char_def)
  have s1: "strip ''1,x,3'' = ''1,x,3''" "strip ''1, 3'' = ''1, 3''" "strip ''x'' = ''x''"
    "strip ''1'' = ''1''" "strip '' 3'' = ''3''"
    by (simp_all add: string_eval)
  have sp: "split_on (CHR '','') ''1,x,3'' = [''1'', ''x'', ''3'']"
    "split_on (CHR '','') ''1, 3'' = [''1'', '' 3'']"
    by simp_all
  have a: "?fs \<noteq> []" by simp
  have b: "stdin (start [''1,x,3'', ''q'']) = ''1,x,3'' # [''q'']" by (simp add: start_def)
  have c: "lower (strip ''1,x,3'') \<noteq> ''q''" "lower (strip ''1,x,3'') \<noteq> ''a''"
    "lower (strip ''1, 3'') \<noteq> ''q''" "lower (strip ''1, 3'') \<noteq> ''a''"
    unfolding s1 by (simp_all add: lower_def)
  have d: "''x'' \<in> set (split_on (CHR '','') (strip ''1,x,3''))"
    unfolding s1 sp by simp
  have e: "strip ''x'' \<notin> dom (file_map ?fs)"
    unfolding s1 by (simp add: domIff fm)
  have inv: "\<exists>tok \<in> set (split_on (CHR '','') (strip ''1,x,3'')). strip tok \<notin> dom (file_map ?fs)"
    by (rule bexI [of "\<lambda>tok. strip tok \<notin> dom (file_map ?fs)" "''x''", OF e d])
  have q: "fst (select_loop ?fs (start [''1,x,3'', ''q'']\<lparr>stdin := [''q'']\<rparr>)) = Quit"
    by (simp add: select_loop.simps read_input_def start_def Let_def string_eval)
  have t: "commands (trace (snd (interactive_select ?E ?fs (start [''1,x,3'', ''q''])))) =
      commands (trace (snd (interactive_select ?E ?fs (start [''1,x,3'', ''q'']\<lparr>stdin := [''q'']\<rparr>))))"
    by (rule selection_is_atomic [OF a b c(1) c(2), of ?E, THEN conjunct2, THEN conjunct1,
        THEN mp, OF inv, THEN conjunct2])
  have r: "commands (trace (snd (interactive_select ?E ?fs (start [''1,x,3'', ''q'']\<lparr>stdin := [''q'']\<rparr>)))) = []"
    unfolding interactive_select_commands [OF a] q by (simp add: start_def)
  have r1: "commands (trace (snd (interactive_select ?E ?fs (start [''1,x,3'', ''q''])))) = []"
    by (simp only: t r)
  have b2: "stdin (start [''1, 3'']) = ''1, 3'' # []" by (simp add: start_def)
  have val: "\<forall>tok \<in> set (split_on (CHR '','') (strip ''1, 3'')). strip tok \<in> dom (file_map ?fs)"
    unfolding s1 sp by (simp add: s1 domIff fm)
  have val': "list_all (\<lambda>tok. strip tok \<in> dom (file_map ?fs))
     (split_on (CHR '','') (strip ''1, 3''))"
    using val by (simp only: list_all_iff)
  have r2: "commands (trace (snd (interactive_select ?E ?fs (start [''1, 3''])))) =
     [''git checkout upstream/main -- a.py'', ''git checkout upstream/main -- c.py'',
      ''git status'']"
    unfolding selection_is_atomic [OF a b2 c(3) c(4), of ?E, THEN conjunct2, THEN conjunct2,
        THEN mp, OF val]
    unfolding s1 sp by (simp add: s1 fm checkout_cmd_def start_def)
  show ?thesis
    by (intro conjI a b c d e r1 b2 val' r2)
qed

section \<open>Running whole sessions\<close>

lemmas session_eval =
  main_def main_loop.simps main_iter_def ensure_remote_def resolve_def menu_def run_choice_def
  after_operation_def fetch_upstream_def get_changed_files_def filtered_files_def
  setup_merge_protection_def
  preview_changes_def apply_all_changes_def interactive_select_def check_conflicts_def
  show_status_def restore_excluded_def checkout_selected_def launch_editor_def
  select_loop.simps file_map_def str_nat.simps digit_char_def
  diff_paths_cmd_def merge_cmd_def unmerged_cmd_def add_remote_cmd_def checkout_cmd_def
  restore_cmd_def all_files_def unlines_def is_excluded_iff sublist_Cons_right suffix_def

lemma conflict_session:
  "main_loop (env_of conflict_backend) (start [''2'', ''y'', '''', ''0'']) =
     (Returned,
      \<lparr>gitattributes = None,
       trace =
         [Run ''git remote -v'', Say Fetching, Run ''git fetch upstream'',
          Run ''git log -1 --oneline upstream/main'', Say (FetchDone []),
          Run ''git diff --name-only HEAD..upstream/main'', Say (Summary [''src/a.txt'']),
          Ask AskMenu, Say (AboutToApply [''src/a.txt'']), Ask AskConfirmAll, Say Applying,
          Run ''git merge --no-commit --no-ff upstream/main'', Say MergeFailed,
          Say NextSteps, Ask AskReturn,
          Run ''git remote -v'', Say Fetching, Run ''git fetch upstream'',
          Run ''git log -1 --oneline upstream/main'', Say (FetchDone []),
          Run ''git diff --name-only HEAD..upstream/main'', Say (Summary [''src/a.txt'']),
          Ask AskMenu, Say Goodbye],
       stdin = []\<rparr>)"
  by (simp add: conflict_backend_def session_eval run_eval string_eval)

section \<open>Apply-all when the merge fails\<close>

lemma run_cmd_fail:
  "\<forall>out. backend E (commands (trace st) @ [cmd]) \<noteq> Exited out 0 \<Longrightarrow>
   snd (fst (run_cmd E cmd capture keep_color st)) \<noteq> 0"
  by (cases "backend E (commands (trace st) @ [cmd])") (simp_all add: run_cmd_def Let_def)

lemma last_trace_say [simp]: "last (trace (say m st)) = Say m"
  by (simp add: say_def)

text \<open>
  Claim C6, as the code has it. When the operator confirms apply-all on a change set that
  is not empty and the merge does not end with return code 0, the operation reports the
  failure and returns: the merge is the only command it issues, so there is no query of
  the unmerged paths and no restoring checkout.
\<close>

theorem apply_all_merge_failure:
  assumes "files \<noteq> []" and "stdin st = confirm # rest" and "lower confirm = ''y''"
    and "\<forall>out. backend E (commands (trace st) @ [merge_cmd]) \<noteq> Exited out 0"
  shows "fst (apply_all_changes E files st) = Returned \<and>
         commands (trace (snd (apply_all_changes E files st))) =
           commands (trace st) @ [merge_cmd] \<and>
         last (trace (snd (apply_all_changes E files st))) = Say MergeFailed \<and>
         stdin (snd (apply_all_changes E files st)) = rest"
proof -
  let ?st1 = "say (AboutToApply files) st"
  let ?st2 = "say Applying (?st1\<lparr>trace := trace ?st1 @ [Ask AskConfirmAll], stdin := rest\<rparr>)"
  have ri: "read_input AskConfirmAll ?st1 =
      (Some confirm, ?st1\<lparr>trace := trace ?st1 @ [Ask AskConfirmAll], stdin := rest\<rparr>)"
    using assms(2) by (intro read_input_Cons) simp
  have "commands (trace ?st2) = commands (trace st)" by (simp add: say_def)
  with assms(4) have nz: "snd (fst (run_cmd E merge_cmd False False ?st2)) \<noteq> 0"
    by (intro run_cmd_fail) simp
  obtain out code st3 where rc: "run_cmd E merge_cmd False False ?st2 = ((out, code), st3)"
    by (cases "run_cmd E merge_cmd False False ?st2") auto
  with nz have code: "code \<noteq> 0" by simp
  have st3: "st3 = snd (run_cmd E merge_cmd False False ?st2)" by (simp add: rc)
  have c3: "commands (trace st3) = commands (trace st) @ [merge_cmd]"
    unfolding st3 by (simp add: say_def)
  have s3: "stdin st3 = rest"
    unfolding st3 by (simp add: say_def)
  have "apply_all_changes E files st = (Returned, say MergeFailed st3)"
    using assms(1,3) code by (simp add: apply_all_changes_def ri rc)
  then show ?thesis by (simp add: c3 s3)
qed

theorem apply_all_merge_failure_witness:
  "[''src/a.txt''] \<noteq> [] \<and> stdin (start [''y'']) = ''y'' # [] \<and> lower ''y'' = ''y'' \<and>
   backend (env_of conflict_backend) (commands (trace (start [''y''])) @ [merge_cmd]) =
     Exited [] 1 \<and>
   fst (apply_all_changes (env_of conflict_backend) [''src/a.txt''] (start [''y''])) = Returned \<and>
   commands (trace (snd (apply_all_changes (env_of conflict_backend) [''src/a.txt'']
     (start [''y''])))) = [''git merge --no-commit --no-ff upstream/main''] \<and>
   last (trace (snd (apply_all_changes (env_of conflict_backend) [''src/a.txt''] (start [''y''])))) =
     Say MergeFailed"
proof -
  let ?E = "env_of conflict_backend"
  have a: "[''src/a.txt''] \<noteq> []" by simp
  have b: "stdin (start [''y'']) = ''y'' # []" by (simp add: start_def)
  have c: "lower ''y'' = ''y''" by (simp add: string_eval)
  have d: "backend ?E (commands (trace (start [''y''])) @ [merge_cmd]) = Exited [] 1"
    by (simp add: conflict_backend_def run_eval merge_cmd_def diff_paths_cmd_def)
  then have d': "\<forall>out. backend ?E (commands (trace (start [''y''])) @ [merge_cmd]) \<noteq> Exited out 0"
    by simp
  have e: "commands (trace (start [''y''])) = []" by (simp add: start_def)
  note t = apply_all_merge_failure [OF a b c d']
  show ?thesis
    using t a b c d by (simp add: e merge_cmd_def)
qed

text \<open>The claim as stated fails: in this session the merge ends with return code 1, and
  neither apply-all nor the loop after it queries the unmerged paths.\<close>

theorem merge_failure_counterexample:
  "backend (env_of conflict_backend)
     [''git remote -v'', ''git fetch upstream'', ''git log -1 --oneline upstream/main'',
      diff_paths_cmd, merge_cmd] = Exited [] 1 \<and>
   commands (trace (snd (main_loop (env_of conflict_backend) (start [''2'', ''y'', [], ''0''])))) =
     [''git remote -v'', ''git fetch upstream'', ''git log -1 --oneline upstream/main'',
      ''git diff --name-only HEAD..upstream/main'',
      ''git merge --no-commit --no-ff upstream/main'',
      ''git remote -v'', ''git fetch upstream'', ''git log -1 --oneline upstream/main'',
      ''git diff --name-only HEAD..upstream/main''] \<and>
   unmerged_cmd \<notin> set (commands (trace (snd
      (main_loop (env_of conflict_backend) (start [''2'', ''y'', [], ''0''])))))"
  unfolding conflict_session
  by (simp add: conflict_backend_def run_eval merge_cmd_def diff_paths_cmd_def unmerged_cmd_def)

section \<open>The operations do not look at the outcome of the protection setup\<close>

lemma backend_can_write [simp]: "backend (E\<lparr>can_write := b\<rparr>) = backend E"
  by simp

lemma file_exists_can_write [simp]: "file_exists (E\<lparr>can_write := b\<rparr>) = file_exists E"
  by simp

lemma run_cmd_can_write [simp]:
  "run_cmd (E\<lparr>can_write := b\<rparr>) cmd capture keep_color st = run_cmd E cmd capture keep_color st"
  by (simp add: run_cmd_def)

lemma preview_loop_can_write [simp]:
  "preview_loop (E\<lparr>can_write := b\<rparr>) idx n files st = preview_loop E idx n files st"
  by (induction files arbitrary: idx st) (auto simp: Let_def split: prod.splits option.splits)

lemma helpers_can_write [simp]:
  "show_status (E\<lparr>can_write := b\<rparr>) st = show_status E st"
  "restore_excluded (E\<lparr>can_write := b\<rparr>) st = restore_excluded E st"
  "checkout_selected (E\<lparr>can_write := b\<rparr>) selected st = checkout_selected E selected st"
  "launch_editor (E\<lparr>can_write := b\<rparr>) fs st = launch_editor E fs st"
  by (simp_all add: show_status_def restore_excluded_def checkout_selected_def
        launch_editor_def)

lemmas full_cong =
  prod.case_cong option.case_cong selection.case_cong outcome.case_cong sum.case_cong
  if_cong

lemma operations_can_write [simp]:
  "preview_changes (E\<lparr>can_write := b\<rparr>) files st = preview_changes E files st"
  "apply_all_changes (E\<lparr>can_write := b\<rparr>) files st = apply_all_changes E files st"
  "interactive_select (E\<lparr>can_write := b\<rparr>) files st = interactive_select E files st"
  "check_conflicts (E\<lparr>can_write := b\<rparr>) st = check_conflicts E st"
  by (simp_all add: preview_changes_def apply_all_changes_def interactive_select_def
        check_conflicts_def cong: full_cong)

lemma main_iter_can_write [simp]:
  "main_iter (E\<lparr>can_write := b\<rparr>) st = main_iter E st"
  by (simp add: main_iter_def ensure_remote_def resolve_def menu_def run_choice_def
        fetch_upstream_def get_changed_files_def Let_def cong: full_cong)

lemma main_loop_can_write: "main_loop (E\<lparr>can_write := b\<rparr>) st = main_loop E st"
proof (induction E st rule: main_loop.induct)
  case (1 E st)
  show ?case
    apply (subst main_loop.simps)
    apply (subst (2) main_loop.simps)
    apply (simp split: prod.splits verdict.splits)
    apply (intro allI impI)
    apply (rule 1)
     apply simp_all
    done
qed

lemma apply_all_issues_merge:
  assumes "files \<noteq> []" and "stdin st = confirm # rest" and "lower confirm = ''y''"
  shows "prefix (commands (trace st) @ [merge_cmd])
           (commands (trace (snd (apply_all_changes E files st))))"
proof -
  let ?st1 = "say (AboutToApply files) st"
  let ?st2 = "say Applying (?st1\<lparr>trace := trace ?st1 @ [Ask AskConfirmAll], stdin := rest\<rparr>)"
  have ri: "read_input AskConfirmAll ?st1 =
      (Some confirm, ?st1\<lparr>trace := trace ?st1 @ [Ask AskConfirmAll], stdin := rest\<rparr>)"
    using assms(2) by (intro read_input_Cons) simp
  obtain out code st3 where rc: "run_cmd E merge_cmd False False ?st2 = ((out, code), st3)"
    by (cases "run_cmd E merge_cmd False False ?st2") auto
  have st3: "st3 = snd (run_cmd E merge_cmd False False ?st2)" by (simp add: rc)
  have c3: "commands (trace st3) = commands (trace st) @ [merge_cmd]"
    unfolding st3 by (simp add: say_def)
  show ?thesis
    using assms(1,3) by (simp add: apply_all_changes_def ri rc c3)
qed

lemma stdin_setup_merge_protection [simp]:
  "stdin (setup_merge_protection E st) = stdin st"
  by (simp add: setup_merge_protection_def)

lemmas session_eval2 =
  main_def main_loop.simps main_iter_def ensure_remote_def resolve_def menu_def run_choice_def
  after_operation_def fetch_upstream_def get_changed_files_def filtered_files_def
  setup_merge_protection_def
  preview_changes_def apply_all_changes_def interactive_select_def check_conflicts_def
  show_status_def restore_excluded_cmds checkout_selected_def launch_editor_def
  select_loop.simps file_map_def str_nat.simps digit_char_def
  diff_paths_cmd_def merge_cmd_def unmerged_cmd_def add_remote_cmd_def checkout_cmd_def
  all_files_def unlines_def is_excluded_iff sublist_Cons_right

section \<open>Runs with other return codes\<close>

lemma file_exists_recode [simp]: "file_exists (recode f E) = file_exists E"
  by (simp add: recode_def)

lemma run_cmd_recode_snd [simp]:
  "snd (run_cmd (recode f E) cmd capture keep_color st) = snd (run_cmd E cmd capture keep_color st)"
  by (simp add: run_cmd_def recode_def Let_def split: reply.splits)

lemma run_cmd_recode_out [simp]:
  "fst (fst (run_cmd (recode f E) cmd capture keep_color st)) = fst (fst (run_cmd E cmd capture keep_color st))"
  by (simp add: run_cmd_def recode_def Let_def split: reply.splits)

lemma run_cmd_recode_case [simp]:
  "(case run_cmd (recode f E) cmd capture keep_color st of ((out, code), s) \<Rightarrow> F out s) =
   (case run_cmd E cmd capture keep_color st of ((out, code), s) \<Rightarrow> F out s)"
  by (simp add: run_cmd_def recode_def Let_def split: reply.splits)

lemma run_cmd_recode_fetch [simp]:
  "run_cmd (recode f E) ''git fetch upstream'' capture keep_color st =
   run_cmd E ''git fetch upstream'' capture keep_color st"
  by (simp add: run_cmd_def recode_def Let_def split: reply.splits)

lemma run_cmd_recode_merge [simp]:
  "run_cmd (recode f E) merge_cmd capture keep_color st = run_cmd E merge_cmd capture keep_color st"
  by (simp add: run_cmd_def recode_def Let_def split: reply.splits)

lemma helpers_recode [simp]:
  "show_status (recode f E) st = show_status E st"
  "restore_excluded (recode f E) st = restore_excluded E st"
  "checkout_selected (recode f E) selected st = checkout_selected E selected st"
  "launch_editor (recode f E) fs st = launch_editor E fs st"
  by (simp_all add: show_status_def restore_excluded_def checkout_selected_def
        launch_editor_def)

lemma preview_loop_recode [simp]:
  "preview_loop (recode f E) idx n files st = preview_loop E idx n files st"
  by (induction files arbitrary: idx st) (simp_all cong: full_cong)

lemma operations_recode [simp]:
  "preview_changes (recode f E) files st = preview_changes E files st"
  "apply_all_changes (recode f E) files st = apply_all_changes E files st"
  "interactive_select (recode f E) files st = interactive_select E files st"
  "check_conflicts (recode f E) st = check_conflicts E st"
  "fetch_upstream (recode f E) st = fetch_upstream E st"
  "get_changed_files (recode f E) st = get_changed_files E st"
  by (simp_all add: preview_changes_def apply_all_changes_def interactive_select_def
        check_conflicts_def fetch_upstream_def get_changed_files_def cong: full_cong)

lemma main_iter_recode [simp]: "main_iter (recode f E) st = main_iter E st"
  by (simp add: main_iter_def ensure_remote_def resolve_def menu_def run_choice_def
        Let_def cong: full_cong)

lemma main_loop_recode: "main_loop (recode f E) st = main_loop E st"
proof (induction E st rule: main_loop.induct)
  case (1 E st)
  show ?case
    apply (subst main_loop.simps)
    apply (subst (2) main_loop.simps)
    apply (simp split: prod.splits verdict.splits)
    apply (intro allI impI)
    apply (rule 1)
     apply simp_all
    done
qed

lemma fetch_upstream_fails:
  assumes "\<forall>out. backend E (commands (trace st) @ [''git fetch upstream'']) \<noteq> Exited out 0"
  shows "\<exists>st1. fetch_upstream E st = (False, say FetchFailed st1) \<and>
           commands (trace st1) = commands (trace st) @ [''git fetch upstream'']"
proof -
  let ?s = "say Fetching st"
  have "commands (trace ?s) = commands (trace st)" by simp
  with assms have nz: "snd (fst (run_cmd E ''git fetch upstream'' True False ?s)) \<noteq> 0"
    by (intro run_cmd_fail) simp
  obtain out code st1 where rc: "run_cmd E ''git fetch upstream'' True False ?s = ((out, code), st1)"
    by (cases "run_cmd E ''git fetch upstream'' True False ?s") auto
  have st1: "st1 = snd (run_cmd E ''git fetch upstream'' True False ?s)" by (simp add: rc)
  have "commands (trace st1) = commands (trace st) @ [''git fetch upstream'']"
    unfolding st1 by simp
  moreover from nz rc have "fetch_upstream E st = (False, say FetchFailed st1)"
    by (simp add: fetch_upstream_def)
  ultimately show ?thesis by blast
qed

section \<open>Every pass of the main loop fetches and resolves again\<close>

lemma main_loop_Continue:
  "main_iter E st = (Continue, st') \<Longrightarrow> main_loop E st = main_loop E st'"
  by (subst main_loop.simps) simp

lemma menu_refetch:
  "stdin st = line # rest \<Longrightarrow> strip line = ''6'' \<Longrightarrow>
   menu E files st = (Continue, st\<lparr>trace := trace st @ [Ask AskMenu], stdin := rest\<rparr>)"
  by (simp add: menu_def read_input_Cons)

lemma menu_after_operation:
  assumes "stdin st = line # rest" and "strip line \<noteq> ''0''" and "strip line \<noteq> ''6''"
    and "fst (run_choice E (strip line) files
               (st\<lparr>trace := trace st @ [Ask AskMenu], stdin := rest\<rparr>)) = Returned"
    and "stdin (snd (run_choice E (strip line) files
               (st\<lparr>trace := trace st @ [Ask AskMenu], stdin := rest\<rparr>))) = answer # rest2"
    and "strip answer \<noteq> ''0''"
  shows "fst (menu E files st) = Continue"
proof -
  let ?st1 = "st\<lparr>trace := trace st @ [Ask AskMenu], stdin := rest\<rparr>"
  obtain r st2 where rc: "run_choice E (strip line) files ?st1 = (r, st2)"
    by (cases "run_choice E (strip line) files ?st1")
  with assms(4,5) have r: "r = Returned" and s2: "stdin st2 = answer # rest2" by simp_all
  let ?st3 = "if strip line = ''2'' \<or> strip line = ''3'' then say NextSteps st2 else st2"
  have "stdin ?st3 = answer # rest2" using s2 by simp
  from read_input_Cons [OF this, of AskReturn] assms(6)
  have "fst (after_operation (strip line) st2) = Continue"
    by (simp add: after_operation_def)
  then show ?thesis
    using assms(2,3) by (simp add: menu_def read_input_Cons [OF assms(1)] rc r)
qed

lemma commands_fetch_upstream:
  "fst (fetch_upstream E st) \<Longrightarrow>
   commands (trace (snd (fetch_upstream E st))) =
     commands (trace st) @ [''git fetch upstream'', ''git log -1 --oneline upstream/main'']"
proof -
  assume ok: "fst (fetch_upstream E st)"
  obtain out code st1 where rc: "run_cmd E ''git fetch upstream'' True False (say Fetching st) =
      ((out, code), st1)"
    by (cases "run_cmd E ''git fetch upstream'' True False (say Fetching st)") auto
  have st1: "st1 = snd (run_cmd E ''git fetch upstream'' True False (say Fetching st))"
    by (simp add: rc)
  obtain out2 code2 st2 where rc2: "run_cmd E ''git log -1 --oneline upstream/main'' True False st1 =
      ((out2, code2), st2)"
    by (cases "run_cmd E ''git log -1 --oneline upstream/main'' True False st1") auto
  have st2: "st2 = snd (run_cmd E ''git log -1 --oneline upstream/main'' True False st1)"
    by (simp add: rc2)
  have c: "commands (trace st2) =
      commands (trace st) @ [''git fetch upstream'', ''git log -1 --oneline upstream/main'']"
    unfolding st2 st1 by simp
  from ok have "code = 0" by (simp add: fetch_upstream_def rc split: if_splits)
  then show ?thesis by (simp add: fetch_upstream_def rc rc2 c)
qed

lemma resolve_Inr:
  assumes "resolve E st = Inr (files, st')"
  shows "files = fst (get_changed_files E (snd (fetch_upstream E st))) \<and>
         commands (trace st') =
           commands (trace st) @
           [''git fetch upstream'', ''git log -1 --oneline upstream/main'', diff_paths_cmd]"
proof -
  obtain ok st1 where fu: "fetch_upstream E st = (ok, st1)" by (cases "fetch_upstream E st")
  with assms have ok: ok by (simp add: resolve_def split: if_splits)
  obtain fs st2 where gc: "get_changed_files E st1 = (fs, st2)"
    by (cases "get_changed_files E st1")
  have st2: "st2 = snd (run_cmd E diff_paths_cmd True False st1)"
    using gc by (simp add: get_changed_files_def split: prod.splits)
  have c1: "commands (trace st1) =
      commands (trace st) @ [''git fetch upstream'', ''git log -1 --oneline upstream/main'']"
    using commands_fetch_upstream [of E st] fu ok by simp
  have c2: "commands (trace st2) = commands (trace st1) @ [diff_paths_cmd]"
    unfolding st2 by simp
  from assms fu ok gc have "files = fs"
    and "st' = (if fs = [] then say (UpToDate (map clean_pattern excluded_patterns)) st2
               else say (Summary fs) st2)"
    by (auto simp: resolve_def)
  then show ?thesis using fu gc c1 c2 by simp
qed

text \<open>
  Claim C7, as the code has it. After an operation has returned and the operator has
  answered the return prompt with anything but 0, the pass ends as option 6 ends it: the
  loop goes back to its head. A pass that reaches the menu has, after the check of the
  remote, fetched again and derived the change set again from a new diff query; the menu
  works on that change set.
\<close>

theorem every_pass_resolves_again:
  "(main_iter E st = (Continue, st') \<longrightarrow> main_loop E st = main_loop E st') \<and>
   (stdin st = line # rest \<and> strip line = ''6'' \<longrightarrow> fst (menu E files st) = Continue) \<and>
   (stdin st = line # rest \<and> strip line \<noteq> ''0'' \<and> strip line \<noteq> ''6'' \<and>
    fst (run_choice E (strip line) files
          (st\<lparr>trace := trace st @ [Ask AskMenu], stdin := rest\<rparr>)) = Returned \<and>
    stdin (snd (run_choice E (strip line) files
          (st\<lparr>trace := trace st @ [Ask AskMenu], stdin := rest\<rparr>))) = answer # rest2 \<and>
    strip answer \<noteq> ''0'' \<longrightarrow> fst (menu E files st) = Continue) \<and>
   (ensure_remote E st = Inr st1 \<and> resolve E st1 = Inr (fs, st2) \<longrightarrow>
      main_iter E st = menu E fs st2 \<and>
      fs = fst (get_changed_files E (snd (fetch_upstream E st1))) \<and>
      commands (trace st2) =
        commands (trace st1) @
        [''git fetch upstream'', ''git log -1 --oneline upstream/main'', diff_paths_cmd])"
proof (intro conjI impI)
  assume "main_iter E st = (Continue, st')"
  then show "main_loop E st = main_loop E st'" by (rule main_loop_Continue)
next
  assume "stdin st = line # rest \<and> strip line = ''6''"
  then show "fst (menu E files st) = Continue" by (simp add: menu_refetch)
next
  assume a: "stdin st = line # rest \<and> strip line \<noteq> ''0'' \<and> strip line \<noteq> ''6'' \<and>
    fst (run_choice E (strip line) files
          (st\<lparr>trace := trace st @ [Ask AskMenu], stdin := rest\<rparr>)) = Returned \<and>
    stdin (snd (run_choice E (strip line) files
          (st\<lparr>trace := trace st @ [Ask AskMenu], stdin := rest\<rparr>))) = answer # rest2 \<and>
    strip answer \<noteq> ''0''"
  show "fst (menu E files st) = Continue"
    by (rule menu_after_operation [of st line rest E files answer rest2]) (simp_all add: a)
next
  assume a: "ensure_remote E st = Inr st1 \<and> resolve E st1 = Inr (fs, st2)"
  then show "main_iter E st = menu E fs st2" by (simp add: main_iter_def)
  from a have r: "resolve E st1 = Inr (fs, st2)" by (rule conjunct2)
  from resolve_Inr [OF r]
  show "fs = fst (get_changed_files E (snd (fetch_upstream E st1)))"
    and "commands (trace st2) =
        commands (trace st1) @
        [''git fetch upstream'', ''git log -1 --oneline upstream/main'', diff_paths_cmd]"
    by (rule conjunct1, rule conjunct2)
qed

lemmas changing_eval =
  changing_backend_def run_cmd_def read_input_def say_def commands_def env_of_def start_def
  Let_def

theorem every_pass_resolves_again_witness:
  "fst (main_iter (env_of changing_backend) (start [''4'', [], ''0''])) = Continue \<and>
   main_loop (env_of changing_backend) (start [''4'', [], ''0'']) =
     main_loop (env_of changing_backend)
       (snd (main_iter (env_of changing_backend) (start [''4'', [], ''0'']))) \<and>
   stdin (start [''6'']) = ''6'' # [] \<and> strip ''6'' = ''6'' \<and>
   fst (menu (env_of changing_backend) [] (start [''6''])) = Continue \<and>
   stdin (start [''5'', []]) = ''5'' # [[]] \<and> strip ''5'' \<noteq> ''0'' \<and> strip ''5'' \<noteq> ''6'' \<and>
   strip [] \<noteq> ''0'' \<and>
   fst (menu (env_of changing_backend) [] (start [''5'', []])) = Continue \<and>
   (\<exists>st1 st2.
      ensure_remote (env_of changing_backend) (start [''4'', [], ''0'']) = Inr st1 \<and>
      resolve (env_of changing_backend) st1 = Inr ([''src/a.txt''], st2) \<and>
      main_iter (env_of changing_backend) (start [''4'', [], ''0'']) =
        menu (env_of changing_backend) [''src/a.txt''] st2 \<and>
      commands (trace st2) =
        [''git remote -v'', ''git fetch upstream'', ''git log -1 --oneline upstream/main'',
         ''git diff --name-only HEAD..upstream/main''])"
proof -
  let ?E = "env_of changing_backend"
  let ?st0 = "start [''4'', [], ''0'']"
  let ?s1 = "\<lparr>gitattributes = None, trace = [Run ''git remote -v''],
             stdin = [''4'', [], ''0'']\<rparr>"
  let ?s2 = "\<lparr>gitattributes = None,
             trace = [Run ''git remote -v'', Say Fetching, Run ''git fetch upstream'',
                      Run ''git log -1 --oneline upstream/main'', Say (FetchDone []),
                      Run ''git diff --name-only HEAD..upstream/main'',
                      Say (Summary [''src/a.txt''])],
             stdin = [''4'', [], ''0'']\<rparr>"
  have w1: "fst (main_iter ?E ?st0) = Continue"
    by (simp add: session_eval2 changing_eval string_eval)
  then have "main_iter ?E ?st0 = (Continue, snd (main_iter ?E ?st0))"
    by (simp add: prod_eq_iff)
  note r1 = every_pass_resolves_again [THEN conjunct1, THEN mp, OF this]
  have h2: "stdin (start [''6'']) = ''6'' # [] \<and> strip ''6'' = ''6''"
    by (simp add: start_def string_eval)
  note r2 = every_pass_resolves_again [where st = "start [''6'']" and line = "''6''" and rest = "[]"
        and files = "[]" and E = "env_of changing_backend",
      THEN conjunct2, THEN conjunct1, THEN mp, OF h2]
  have h3a: "stdin (start [''5'', []]) = ''5'' # [[]]" "strip ''5'' \<noteq> ''0''"
    "strip ''5'' \<noteq> ''6''" "strip [] \<noteq> ''0''"
    by (simp_all add: start_def string_eval)
  have h3b: "fst (run_choice ?E (strip ''5'') []
          (start [''5'', []]\<lparr>trace := trace (start [''5'', []]) @ [Ask AskMenu], stdin := [[]]\<rparr>)) =
        Returned"
    "stdin (snd (run_choice ?E (strip ''5'') []
          (start [''5'', []]\<lparr>trace := trace (start [''5'', []]) @ [Ask AskMenu], stdin := [[]]\<rparr>))) =
        [] # []"
    by (simp_all add: run_choice_def show_status_def start_def string_eval)
  note r3 = every_pass_resolves_again [where st = "start [''5'', []]" and line = "''5''"
        and rest = "[[]]" and files = "[]" and answer = "[]" and ?rest2.0 = "[]"
        and E = "env_of changing_backend",
      THEN conjunct2, THEN conjunct2, THEN conjunct1, THEN mp,
      OF conjI [OF h3a(1) conjI [OF h3a(2) conjI [OF h3a(3) conjI [OF h3b(1)
           conjI [OF h3b(2) h3a(4)]]]]]]
  have er: "ensure_remote ?E ?st0 = Inr ?s1"
    by (simp add: ensure_remote_def changing_eval string_eval sublist_Cons_right)
  have rs: "resolve ?E ?s1 = Inr ([''src/a.txt''], ?s2)"
    by (simp add: session_eval2 changing_eval string_eval)
  note r4 = every_pass_resolves_again [where E = "env_of changing_backend"
        and st = "start [''4'', [], ''0'']" and ?st1.0 = ?s1 and fs = "[''src/a.txt'']"
        and ?st2.0 = ?s2,
      THEN conjunct2, THEN conjunct2, THEN conjunct2, THEN mp, OF conjI [OF er rs]]
  have c: "commands (trace ?s2) =
        [''git remote -v'', ''git fetch upstream'', ''git log -1 --oneline upstream/main'',
         ''git diff --name-only HEAD..upstream/main'']"
    by simp
  have ex: "\<exists>st1 st2.
      ensure_remote ?E ?st0 = Inr st1 \<and> resolve ?E st1 = Inr ([''src/a.txt''], st2) \<and>
      main_iter ?E ?st0 = menu ?E [''src/a.txt''] st2 \<and>
      commands (trace st2) =
        [''git remote -v'', ''git fetch upstream'', ''git log -1 --oneline upstream/main'',
         ''git diff --name-only HEAD..upstream/main'']"
    by (intro exI [of _ ?s1] exI [of _ ?s2] conjI er rs r4 [THEN conjunct1] c)
  from h2 have h2a: "stdin (start [''6'']) = ''6'' # []" and h2b: "strip ''6'' = ''6''"
    by simp_all
  show ?thesis
    by (intro conjI w1 r1 h2a h2b r2 h3a r3 ex)
qed

text \<open>The claim as stated fails: the operator runs the conflict check, returns to the
  menu and leaves; option 6 is never chosen, and yet the second pass fetches again and
  derives a different change set.\<close>

theorem refetch_counterexample:
  "trace (snd (main_loop (env_of changing_backend) (start [''4'', [], ''0'']))) =
     [Run ''git remote -v'', Say Fetching, Run ''git fetch upstream'',
      Run ''git log -1 --oneline upstream/main'', Say (FetchDone []),
      Run ''git diff --name-only HEAD..upstream/main'', Say (Summary [''src/a.txt'']),
      Ask AskMenu, Say CheckingConflicts, Run ''git diff --name-only --diff-filter=U'',
      Say NoConflicts, Run ''git status'', Ask AskReturn,
      Run ''git remote -v'', Say Fetching, Run ''git fetch upstream'',
      Run ''git log -1 --oneline upstream/main'', Say (FetchDone []),
      Run ''git diff --name-only HEAD..upstream/main'',
      Say (Summary [''src/a.txt'', ''src/b.txt'']),
      Ask AskMenu, Say Goodbye]"
  by (simp add: session_eval2 changing_eval string_eval)

section \<open>Facts about the shell and the working copy\<close>





lemma checkout_args_others [simp]:
  "checkout_args ''git status'' = None"
  "checkout_args merge_cmd = None"
  by (simp_all add: checkout_args_def shell_words_def merge_cmd_def)




lemma replay_status [simp]: "replay E R past [''git status''] wc = wc"
  by (simp add: command_effect_def merge_cmd_def)

section \<open>Apply-all restores the excluded paths after a successful merge\<close>

lemma say_in_show_status: "Say m \<in> set (trace (show_status E (say m s)))"
  by (simp add: show_status_def run_cmd_def say_def Let_def split: reply.splits)

lemma apply_all_changes_merged:
  assumes "files \<noteq> []" and "stdin st = confirm # rest" and "lower confirm = ''y''"
    and "backend E (commands (trace st) @ [merge_cmd]) = Exited out 0"
  shows "fst (apply_all_changes E files st) = Returned"
    and "commands (trace (snd (apply_all_changes E files st))) =
           commands (trace st) @ [merge_cmd] @ map restore_cmd excluded_patterns @
           [''git status'']"
    and "Say Staged \<in> set (trace (snd (apply_all_changes E files st)))"
    and "stdin (snd (apply_all_changes E files st)) = rest"
proof -
  let ?st1 = "say (AboutToApply files) st"
  let ?st2 = "say Applying (?st1\<lparr>trace := trace ?st1 @ [Ask AskConfirmAll], stdin := rest\<rparr>)"
  let ?st3 = "?st2\<lparr>trace := trace ?st2 @ [Run merge_cmd]\<rparr>"
  have ri: "read_input AskConfirmAll ?st1 =
      (Some confirm, ?st1\<lparr>trace := trace ?st1 @ [Ask AskConfirmAll], stdin := rest\<rparr>)"
    using assms(2) by (intro read_input_Cons) simp
  have "commands (trace ?st2) = commands (trace st)" by (simp add: say_def)
  with assms(4) have rc: "run_cmd E merge_cmd False False ?st2 = (([], 0), ?st3)"
    using run_cmd_code [of E ?st2 merge_cmd out 0 False False] by simp
  have eq: "apply_all_changes E files st =
      (Returned, show_status E (say Staged (restore_excluded E ?st3)))"
    using assms(1,3) by (simp add: apply_all_changes_def ri rc)
  show "fst (apply_all_changes E files st) = Returned" by (simp add: eq)
  show "commands (trace (snd (apply_all_changes E files st))) =
           commands (trace st) @ [merge_cmd] @ map restore_cmd excluded_patterns @
           [''git status'']"
    by (simp add: eq say_def)
  show "Say Staged \<in> set (trace (snd (apply_all_changes E files st)))"
    by (simp add: eq say_in_show_status)
  show "stdin (snd (apply_all_changes E files st)) = rest"
    by (simp add: eq say_def)
qed





lemma command_effect_merge [simp]: "command_effect R merge_cmd r wc = merged R r wc"
  by (simp add: command_effect_def)

lemma command_effect_status [simp]: "command_effect R ''git status'' r wc = wc"
  by (simp add: command_effect_def merge_cmd_def)





section \<open>Apply-selected checks out the selected files\<close>








section \<open>A failed protection setup blocks nothing\<close>

lemma commands_setup_merge_protection:
  "commands (trace (setup_merge_protection E st)) =
     commands (trace st) @
     (if gitattributes st = None \<and> \<not> can_write E then []
      else [''git config merge.ours.driver true''])"
  by (simp add: setup_merge_protection_def)

text \<open>
  Claim C5, as the code has it. When the protection file is missing and cannot be
  written, \<open>_setup_merge_protection\<close> prints the warning and does nothing else; when the
  file exists and the configuration command ends with any return code, it reports
  nothing. Nothing records a failure: the main loop does not consult whether the file can
  be written, and after the setup, failed or not, a confirmed apply-all on a change set
  that is not empty issues the merge and, if the merge succeeds, the restoring checkouts
  and the status query, and apply-selected with a line of valid indices issues its
  checkouts and the status query. The commands that the two operations issue after a
  setup that failed to write the file are those they issue after a setup that wrote it.
\<close>

theorem protection_failure_blocks_nothing:
  "(gitattributes st = None \<and> \<not> can_write E \<longrightarrow>
      setup_merge_protection E st = say ProtectionFailed st) \<and>
   (gitattributes st = Some c \<and>
    backend E (commands (trace st) @ [''git config merge.ours.driver true'']) = Exited out code \<longrightarrow>
      setup_merge_protection E st =
        st\<lparr>trace := trace st @ [Run ''git config merge.ours.driver true'']\<rparr>) \<and>
   main_loop (E\<lparr>can_write := b\<rparr>) st = main_loop E st \<and>
   (files \<noteq> [] \<and> stdin st = confirm # rest \<and> lower confirm = ''y'' \<longrightarrow>
      prefix (commands (trace (setup_merge_protection E st)) @ [merge_cmd])
        (commands (trace (snd (apply_all_changes E files (setup_merge_protection E st)))))) \<and>
   (files \<noteq> [] \<and> stdin st = confirm # rest \<and> lower confirm = ''y'' \<and>
    backend E (commands (trace (setup_merge_protection E st)) @ [merge_cmd]) = Exited out2 0 \<longrightarrow>
      commands (trace (snd (apply_all_changes E files (setup_merge_protection E st)))) =
        commands (trace (setup_merge_protection E st)) @ [merge_cmd] @
        map restore_cmd excluded_patterns @ [''git status'']) \<and>
   (idxs \<noteq> [] \<and> (\<forall>i \<in> set idxs. 1 \<le> i \<and> i \<le> length files) \<and>
    stdin st = join_with (CHR '','') (map str_nat idxs) # rest \<longrightarrow>
      commands (trace (snd (interactive_select E files (setup_merge_protection E st)))) =
        commands (trace (setup_merge_protection E st)) @
        map (\<lambda>i. checkout_cmd (files ! (i - 1))) idxs @ [''git status''] \<and>
      drop (length (commands (trace (setup_merge_protection (E\<lparr>can_write := False\<rparr>) st))))
        (commands (trace (snd (interactive_select E files
           (setup_merge_protection (E\<lparr>can_write := False\<rparr>) st))))) =
      drop (length (commands (trace (setup_merge_protection (E\<lparr>can_write := True\<rparr>) st))))
        (commands (trace (snd (interactive_select E files
           (setup_merge_protection (E\<lparr>can_write := True\<rparr>) st))))))"
proof (intro conjI impI)
  assume "gitattributes st = None \<and> \<not> can_write E"
  then show "setup_merge_protection E st = say ProtectionFailed st"
    by (simp add: setup_merge_protection_def)
next
  assume "gitattributes st = Some c \<and>
    backend E (commands (trace st) @ [''git config merge.ours.driver true'']) = Exited out code"
  then show "setup_merge_protection E st =
        st\<lparr>trace := trace st @ [Run ''git config merge.ours.driver true'']\<rparr>"
    by (simp add: setup_merge_protection_def run_cmd_code)
next
  show "main_loop (E\<lparr>can_write := b\<rparr>) st = main_loop E st" by (rule main_loop_can_write)
next
  assume a: "files \<noteq> [] \<and> stdin st = confirm # rest \<and> lower confirm = ''y''"
  let ?s = "setup_merge_protection E st"
  from a have f: "files \<noteq> []" and i: "stdin ?s = confirm # rest" and l: "lower confirm = ''y''"
    by simp_all
  show "prefix (commands (trace ?s) @ [merge_cmd])
      (commands (trace (snd (apply_all_changes E files ?s))))"
    by (rule apply_all_issues_merge [OF f i l])
next
  assume a: "files \<noteq> [] \<and> stdin st = confirm # rest \<and> lower confirm = ''y'' \<and>
    backend E (commands (trace (setup_merge_protection E st)) @ [merge_cmd]) = Exited out2 0"
  let ?s = "setup_merge_protection E st"
  from a have f: "files \<noteq> []" and i: "stdin ?s = confirm # rest" and l: "lower confirm = ''y''"
    and m: "backend E (commands (trace ?s) @ [merge_cmd]) = Exited out2 0"
    by simp_all
  show "commands (trace (snd (apply_all_changes E files ?s))) =
        commands (trace ?s) @ [merge_cmd] @ map restore_cmd excluded_patterns @ [''git status'']"
    by (rule apply_all_changes_merged(2) [OF f i l m])
next
  assume a: "idxs \<noteq> [] \<and> (\<forall>i \<in> set idxs. 1 \<le> i \<and> i \<le> length files) \<and>
    stdin st = join_with (CHR '','') (map str_nat idxs) # rest"
  then have ne: "idxs \<noteq> []" and range: "\<forall>i \<in> set idxs. 1 \<le> i \<and> i \<le> length files"
    and inp: "stdin (setup_merge_protection E' st) =
      join_with (CHR '','') (map str_nat idxs) # rest" for E'
    by simp_all
  show "commands (trace (snd (interactive_select E files (setup_merge_protection E st)))) =
        commands (trace (setup_merge_protection E st)) @
        map (\<lambda>i. checkout_cmd (files ! (i - 1))) idxs @ [''git status'']"
    by (rule interactive_select_indices [OF ne range inp])
  show "drop (length (commands (trace (setup_merge_protection (E\<lparr>can_write := False\<rparr>) st))))
        (commands (trace (snd (interactive_select E files
           (setup_merge_protection (E\<lparr>can_write := False\<rparr>) st))))) =
      drop (length (commands (trace (setup_merge_protection (E\<lparr>can_write := True\<rparr>) st))))
        (commands (trace (snd (interactive_select E files
           (setup_merge_protection (E\<lparr>can_write := True\<rparr>) st)))))"
    by (simp only: interactive_select_indices [OF ne range inp] append_eq_conv_conj
          drop_append length_append) simp
qed

theorem protection_failure_blocks_nothing_witness:
  "gitattributes (start [''y'']) = None \<and> \<not> can_write unwritable_env \<and>
   setup_merge_protection unwritable_env (start [''y'']) = say ProtectionFailed (start [''y'']) \<and>
   gitattributes (start []\<lparr>gitattributes := Some ''* text=auto''\<rparr>) = Some ''* text=auto'' \<and>
   backend (env_of (scripted [(''git config merge.ours.driver true'', Exited [] 1)]))
     (commands (trace (start []\<lparr>gitattributes := Some ''* text=auto''\<rparr>)) @
      [''git config merge.ours.driver true'']) = Exited [] 1 \<and>
   setup_merge_protection (env_of (scripted [(''git config merge.ours.driver true'', Exited [] 1)]))
     (start []\<lparr>gitattributes := Some ''* text=auto''\<rparr>) =
     \<lparr>gitattributes = Some ''* text=auto'',
      trace = [Run ''git config merge.ours.driver true''], stdin = []\<rparr> \<and>
   [''src/a.txt''] \<noteq> [] \<and> stdin (start [''y'']) = ''y'' # [] \<and> lower ''y'' = ''y'' \<and>
   backend unwritable_env
     (commands (trace (setup_merge_protection unwritable_env (start [''y'']))) @ [merge_cmd]) =
     Exited [] 0 \<and>
   commands (trace (snd (apply_all_changes unwritable_env [''src/a.txt'']
        (setup_merge_protection unwritable_env (start [''y'']))))) =
     [''git merge --no-commit --no-ff upstream/main'',
      ''git checkout HEAD -- .github'', ''git checkout HEAD -- SRAFrontend'',
      ''git checkout HEAD -- setup'', ''git checkout HEAD -- README.md'',
      ''git checkout HEAD -- package.py'', ''git checkout HEAD -- .gitignore'',
      ''git checkout HEAD -- .gitattributes'', ''git status''] \<and>
   [1::nat] \<noteq> [] \<and> list_all (\<lambda>i. 1 \<le> i \<and> i \<le> length [''src/a.txt'']) [1] \<and>
   stdin (start [''1'']) = join_with (CHR '','') (map str_nat [1]) # [] \<and>
   commands (trace (snd (interactive_select unwritable_env [''src/a.txt'']
        (setup_merge_protection unwritable_env (start [''1'']))))) =
     [''git checkout upstream/main -- src/a.txt'', ''git status'']"
proof -
  let ?s2 = "start []\<lparr>gitattributes := Some ''* text=auto''\<rparr>"
  let ?E2 = "env_of (scripted [(''git config merge.ours.driver true'', Exited [] 1)])"
  have a: "gitattributes (start [''y'']) = None \<and> \<not> can_write unwritable_env"
    by (simp add: start_def unwritable_env_def env_of_def)
  note t = protection_failure_blocks_nothing
    [where st = "start [''y'']" and E = unwritable_env and files = "[''src/a.txt'']"
       and confirm = "''y''" and rest = "[]" and ?out2.0 = "[]"]
  note r1 = t [THEN conjunct1, THEN mp, OF a]
  have b1: "gitattributes ?s2 = Some ''* text=auto''" by simp
  have b2: "backend ?E2 (commands (trace ?s2) @ [''git config merge.ours.driver true'']) =
      Exited [] 1"
    by (simp add: start_def scripted_def env_of_def)
  note t2 = protection_failure_blocks_nothing
    [where st = ?s2 and E = ?E2 and c = "''* text=auto''" and out = "[]" and code = 1]
  have r2: "setup_merge_protection ?E2 ?s2 =
     \<lparr>gitattributes = Some ''* text=auto'',
      trace = [Run ''git config merge.ours.driver true''], stdin = []\<rparr>"
    using t2 [THEN conjunct2, THEN conjunct1, THEN mp, OF conjI [OF b1 b2]]
    by (simp add: start_def)
  have c1: "[''src/a.txt''] \<noteq> []" by simp
  have c2: "stdin (start [''y'']) = ''y'' # []" by (simp add: start_def)
  have c3: "lower ''y'' = ''y''" by (simp add: string_eval)
  have cs: "commands (trace (setup_merge_protection unwritable_env (start ins))) = []" for ins
    by (simp add: commands_setup_merge_protection start_def unwritable_env_def env_of_def)
  have c4: "backend unwritable_env
     (commands (trace (setup_merge_protection unwritable_env (start [''y'']))) @ [merge_cmd]) =
     Exited [] 0"
    by (simp add: cs unwritable_env_def plain_backend_def scripted_def env_of_def merge_cmd_def
          diff_paths_cmd_def)
  have r3: "commands (trace (snd (apply_all_changes unwritable_env [''src/a.txt'']
        (setup_merge_protection unwritable_env (start [''y'']))))) =
     [''git merge --no-commit --no-ff upstream/main'',
      ''git checkout HEAD -- .github'', ''git checkout HEAD -- SRAFrontend'',
      ''git checkout HEAD -- setup'', ''git checkout HEAD -- README.md'',
      ''git checkout HEAD -- package.py'', ''git checkout HEAD -- .gitignore'',
      ''git checkout HEAD -- .gitattributes'', ''git status'']"
    unfolding t [THEN conjunct2, THEN conjunct2, THEN conjunct2, THEN conjunct2, THEN conjunct1,
        THEN mp, OF conjI [OF c1 conjI [OF c2 conjI [OF c3 c4]]]]
    by (simp add: cs restore_cmds merge_cmd_def)
  have d1: "[1::nat] \<noteq> []" by simp
  have d2: "\<forall>i \<in> set [1::nat]. 1 \<le> i \<and> i \<le> length [''src/a.txt'']" by simp
  have m: "map str_nat [1] = [''1'']" by (simp add: str_nat.simps digit_char_def)
  have d3: "stdin (start [''1'']) = join_with (CHR '','') (map str_nat [1]) # []"
    unfolding m by (simp add: start_def)
  note t3 = protection_failure_blocks_nothing
    [where st = "start [''1'']" and E = unwritable_env and files = "[''src/a.txt'']"
       and idxs = "[1]" and rest = "[]"]
  have r4: "commands (trace (snd (interactive_select unwritable_env [''src/a.txt'']
        (setup_merge_protection unwritable_env (start [''1'']))))) =
     [''git checkout upstream/main -- src/a.txt'', ''git status'']"
    unfolding t3 [THEN conjunct2, THEN conjunct2, THEN conjunct2, THEN conjunct2, THEN conjunct2,
        THEN mp, OF conjI [OF d1 conjI [OF d2 d3]], THEN conjunct1]
    by (simp add: cs checkout_cmd_def)
  from a have a1: "gitattributes (start [''y'']) = None" and a2: "\<not> can_write unwritable_env"
    by simp_all
  have d2': "list_all (\<lambda>i. 1 \<le> i \<and> i \<le> length [''src/a.txt'']) [1::nat]" by simp
  show ?thesis
    by (intro conjI a1 a2 r1 b1 b2 r2 c1 c2 c3 c4 r3 d1 d2' d3 r4)
qed

text \<open>The claim as stated fails: the protection setup fails at start (the warning is in
  the trace), and yet apply-all runs the merge and the restoring checkouts in the first
  session, and apply-selected runs the checkout in the second.\<close>

theorem protection_failure_counterexample:
  "Say ProtectionFailed \<in> set (trace (snd (main unwritable_env (start [''2'', ''y'', [], ''0''])))) \<and>
   commands (trace (snd (main unwritable_env (start [''2'', ''y'', [], ''0''])))) =
     [''git remote -v'', ''git fetch upstream'', ''git log -1 --oneline upstream/main'',
      ''git diff --name-only HEAD..upstream/main'',
      ''git merge --no-commit --no-ff upstream/main'',
      ''git checkout HEAD -- .github'', ''git checkout HEAD -- SRAFrontend'',
      ''git checkout HEAD -- setup'', ''git checkout HEAD -- README.md'',
      ''git checkout HEAD -- package.py'', ''git checkout HEAD -- .gitignore'',
      ''git checkout HEAD -- .gitattributes'', ''git status'',
      ''git remote -v'', ''git fetch upstream'', ''git log -1 --oneline upstream/main'',
      ''git diff --name-only HEAD..upstream/main''] \<and>
   Say ProtectionFailed \<in> set (trace (snd (main unwritable_env (start [''3'', ''1'', [], ''0''])))) \<and>
   commands (trace (snd (main unwritable_env (start [''3'', ''1'', [], ''0''])))) =
     [''git remote -v'', ''git fetch upstream'', ''git log -1 --oneline upstream/main'',
      ''git diff --name-only HEAD..upstream/main'',
      ''git checkout upstream/main -- src/a.txt'', ''git status'',
      ''git remote -v'', ''git fetch upstream'', ''git log -1 --oneline upstream/main'',
      ''git diff --name-only HEAD..upstream/main'']"
  by (simp add: unwritable_env_def plain_backend_def session_eval2 run_eval string_eval)

section \<open>The return codes that the program reads\<close>

lemma flags_recode [simp]:
  "can_write (recode f E) = can_write E"
  "in_repository (recode f E) = in_repository E"
  "git_available (recode f E) = git_available E"
  by (simp_all add: recode_def)

lemma setup_merge_protection_recode:
  "setup_merge_protection (recode f E) st = setup_merge_protection E st"
  by (simp add: setup_merge_protection_def)

lemma main_recode: "main (recode f E) st = main E st"
  by (simp add: main_def setup_merge_protection_recode main_loop_recode)

lemma apply_all_changes_merge_fails:
  assumes "files \<noteq> []" and "stdin st = confirm # rest" and "lower confirm = ''y''"
    and "\<forall>out. backend E (commands (trace st) @ [merge_cmd]) \<noteq> Exited out 0"
  shows "fst (apply_all_changes E files st) = Returned \<and>
         commands (trace (snd (apply_all_changes E files st))) =
           commands (trace st) @ [merge_cmd] \<and>
         last (trace (snd (apply_all_changes E files st))) = Say MergeFailed"
proof -
  let ?st1 = "say (AboutToApply files) st"
  let ?st2 = "say Applying (?st1\<lparr>trace := trace ?st1 @ [Ask AskConfirmAll], stdin := rest\<rparr>)"
  have ri: "read_input AskConfirmAll ?st1 =
      (Some confirm, ?st1\<lparr>trace := trace ?st1 @ [Ask AskConfirmAll], stdin := rest\<rparr>)"
    using assms(2) by (intro read_input_Cons) simp
  have "commands (trace ?st2) = commands (trace st)" by (simp add: say_def)
  with assms(4) have nz: "snd (fst (run_cmd E merge_cmd False False ?st2)) \<noteq> 0"
    by (intro run_cmd_fail) simp
  obtain out code st3 where rc: "run_cmd E merge_cmd False False ?st2 = ((out, code), st3)"
    by (cases "run_cmd E merge_cmd False False ?st2") auto
  with nz have code: "code \<noteq> 0" by simp
  have st3: "st3 = snd (run_cmd E merge_cmd False False ?st2)" by (simp add: rc)
  have c3: "commands (trace st3) = commands (trace st) @ [merge_cmd]"
    unfolding st3 by (simp add: say_def)
  have "apply_all_changes E files st = (Returned, say MergeFailed st3)"
    using assms(1,3) code by (simp add: apply_all_changes_def ri rc)
  then show ?thesis by (simp add: c3)
qed

text \<open>
  Claim C9, as the code has it. Of the commands that the program runs through \<open>run_cmd\<close>
  it reads the return codes of the fetch and of the merge only: with the return codes of
  all other commands changed in any way, the whole program (the protection setup and the
  main loop) runs the same. In particular \<open>get_changed_files\<close> returns the filtered lines
  of the diff query's output whatever its return code, and when that output is empty the
  loop reports that everything is up to date. A fetch that does not end with return code
  0 is reported and ends the loop; a merge that does not end with return code 0 is
  reported and apply-all returns. The check of \<open>git --version\<close> at the start of
  \<open>main\<close>, which does not go through \<open>run_cmd\<close>, is read as well: when it fails the
  program reports it and ends with the exit code 1.
\<close>

theorem only_fetch_and_merge_codes_are_read:
  "main (recode f E) st = main E st \<and>
   setup_merge_protection (recode f E) st = setup_merge_protection E st \<and>
   main_loop (recode f E) st = main_loop E st \<and>
   (backend E (commands (trace st) @ [diff_paths_cmd]) = Exited out code \<longrightarrow>
      get_changed_files E st =
        (filtered_files (strip (universal_newlines out)),
         st\<lparr>trace := trace st @ [Run diff_paths_cmd]\<rparr>)) \<and>
   (fst (fetch_upstream E st) \<and>
    backend E (commands (trace (snd (fetch_upstream E st))) @ [diff_paths_cmd]) =
      Exited [] code \<longrightarrow>
      (\<exists>st'. resolve E st = Inr ([], st') \<and>
         last (trace st') = Say (UpToDate (map clean_pattern excluded_patterns)))) \<and>
   ((\<forall>out. backend E (commands (trace st) @ [''git fetch upstream'']) \<noteq> Exited out 0) \<longrightarrow>
      (\<exists>st'. resolve E st = Inl (Break, st') \<and>
         commands (trace st') = commands (trace st) @ [''git fetch upstream''] \<and>
         last (trace st') = Say CannotContinue)) \<and>
   (files \<noteq> [] \<and> stdin st = confirm # rest \<and> lower confirm = ''y'' \<and>
    (\<forall>out. backend E (commands (trace st) @ [merge_cmd]) \<noteq> Exited out 0) \<longrightarrow>
      fst (apply_all_changes E files st) = Returned \<and>
      commands (trace (snd (apply_all_changes E files st))) =
        commands (trace st) @ [merge_cmd] \<and>
      last (trace (snd (apply_all_changes E files st))) = Say MergeFailed) \<and>
   (in_repository E \<and> \<not> git_available E \<longrightarrow> main E st = (1, say GitUnavailable st))"
proof (intro conjI impI)
  show "main (recode f E) st = main E st" by (rule main_recode)
next
  show "setup_merge_protection (recode f E) st = setup_merge_protection E st"
    by (rule setup_merge_protection_recode)
next
  show "main_loop (recode f E) st = main_loop E st" by (rule main_loop_recode)
next
  assume "backend E (commands (trace st) @ [diff_paths_cmd]) = Exited out code"
  then show "get_changed_files E st =
      (filtered_files (strip (universal_newlines out)),
       st\<lparr>trace := trace st @ [Run diff_paths_cmd]\<rparr>)"
    by (rule get_changed_files_reply)
next
  assume a: "fst (fetch_upstream E st) \<and>
    backend E (commands (trace (snd (fetch_upstream E st))) @ [diff_paths_cmd]) = Exited [] code"
  obtain ok st1 where fu: "fetch_upstream E st = (ok, st1)" by (cases "fetch_upstream E st")
  with a have ok: "ok" and rep: "backend E (commands (trace st1) @ [diff_paths_cmd]) = Exited [] code"
    by simp_all
  have "get_changed_files E st1 = ([], st1\<lparr>trace := trace st1 @ [Run diff_paths_cmd]\<rparr>)"
    using get_changed_files_reply [OF rep] by (simp add: filtered_files_def strip_def)
  with fu ok show "\<exists>st'. resolve E st = Inr ([], st') \<and>
         last (trace st') = Say (UpToDate (map clean_pattern excluded_patterns))"
    by (simp add: resolve_def)
next
  assume "\<forall>out. backend E (commands (trace st) @ [''git fetch upstream'']) \<noteq> Exited out 0"
  from fetch_upstream_fails [OF this] obtain st1
    where "fetch_upstream E st = (False, say FetchFailed st1)"
      and "commands (trace st1) = commands (trace st) @ [''git fetch upstream'']" by blast
  then show "\<exists>st'. resolve E st = Inl (Break, st') \<and>
         commands (trace st') = commands (trace st) @ [''git fetch upstream''] \<and>
         last (trace st') = Say CannotContinue"
    by (simp add: resolve_def)
next
  assume a: "files \<noteq> [] \<and> stdin st = confirm # rest \<and> lower confirm = ''y'' \<and>
    (\<forall>out. backend E (commands (trace st) @ [merge_cmd]) \<noteq> Exited out 0)"
  then have f: "files \<noteq> []" and i: "stdin st = confirm # rest" and l: "lower confirm = ''y''"
    and m: "\<forall>out. backend E (commands (trace st) @ [merge_cmd]) \<noteq> Exited out 0"
    by simp_all
  note r = apply_all_changes_merge_fails [OF f i l m]
  from r show "fst (apply_all_changes E files st) = Returned" by (rule conjunct1)
  from r show "commands (trace (snd (apply_all_changes E files st))) =
        commands (trace st) @ [merge_cmd]" by (rule conjunct2 [THEN conjunct1])
  from r show "last (trace (snd (apply_all_changes E files st))) = Say MergeFailed"
    by (rule conjunct2 [THEN conjunct2])
next
  assume "in_repository E \<and> \<not> git_available E"
  then show "main E st = (1, say GitUnavailable st)" by (simp add: main_def)
qed

theorem only_fetch_and_merge_codes_are_read_witness:
  "backend (env_of failing_diff_backend) (commands (trace (start [])) @ [diff_paths_cmd]) =
     Exited [] 128 \<and>
   fst (get_changed_files (env_of failing_diff_backend) (start [])) = [] \<and>
   fst (fetch_upstream (env_of failing_diff_backend) (start [])) \<and>
   (\<exists>st'. resolve (env_of failing_diff_backend) (start []) = Inr ([], st') \<and>
      last (trace st') = Say (UpToDate (map clean_pattern excluded_patterns))) \<and>
   (\<exists>st'. resolve (env_of offline_backend) (start []) = Inl (Break, st') \<and>
      commands (trace st') = [''git fetch upstream''] \<and> last (trace st') = Say CannotContinue) \<and>
   [''src/a.txt''] \<noteq> [] \<and> stdin (start [''y'']) = ''y'' # [] \<and> lower ''y'' = ''y'' \<and>
   backend (env_of conflict_backend) (commands (trace (start [''y''])) @ [merge_cmd]) =
     Exited [] 1 \<and>
   last (trace (snd (apply_all_changes (env_of conflict_backend) [''src/a.txt'']
     (start [''y''])))) = Say MergeFailed \<and>
   in_repository ((env_of (scripted []))\<lparr>git_available := False\<rparr>) \<and>
   \<not> git_available ((env_of (scripted []))\<lparr>git_available := False\<rparr>) \<and>
   main ((env_of (scripted []))\<lparr>git_available := False\<rparr>) (start []) =
     (1, say GitUnavailable (start []))"
proof -
  let ?E = "env_of failing_diff_backend"
  let ?C = "env_of conflict_backend"
  let ?G = "(env_of (scripted []))\<lparr>git_available := False\<rparr>"
  have a: "backend ?E (commands (trace (start [])) @ [diff_paths_cmd]) = Exited [] 128"
    by (simp add: failing_diff_backend_def run_eval diff_paths_cmd_def)
  have b: "fst (fetch_upstream ?E (start []))"
    by (simp add: failing_diff_backend_def fetch_upstream_def run_eval diff_paths_cmd_def
          string_eval)
  have c: "backend ?E (commands (trace (snd (fetch_upstream ?E (start [])))) @ [diff_paths_cmd]) =
      Exited [] 128"
    by (simp add: failing_diff_backend_def fetch_upstream_def run_eval diff_paths_cmd_def
          string_eval)
  have d: "\<forall>out. backend (env_of offline_backend)
      (commands (trace (start [])) @ [''git fetch upstream'']) \<noteq> Exited out 0"
    by (simp add: offline_backend_def run_eval diff_paths_cmd_def)
  have e: "commands (trace (start ins)) = []" for ins by (simp add: start_def)
  note t1 = only_fetch_and_merge_codes_are_read
    [where f = "\<lambda>cmd code. 0" and E = ?E and st = "start []" and out = "[]" and code = 128]
  note t2 = only_fetch_and_merge_codes_are_read
    [where f = "\<lambda>cmd code. 0" and E = "env_of offline_backend" and st = "start []"]
  have r1: "fst (get_changed_files ?E (start [])) = []"
    using t1 [THEN conjunct2, THEN conjunct2, THEN conjunct2, THEN conjunct1, THEN mp, OF a]
    by (simp add: filtered_files_def strip_def)
  note r2 = t1 [THEN conjunct2, THEN conjunct2, THEN conjunct2, THEN conjunct2, THEN conjunct1,
      THEN mp, OF conjI [OF b c]]
  note r3 = t2 [THEN conjunct2, THEN conjunct2, THEN conjunct2, THEN conjunct2, THEN conjunct2,
      THEN conjunct1, THEN mp, OF d, unfolded e, simplified]
  have m1: "[''src/a.txt''] \<noteq> []" by simp
  have m2: "stdin (start [''y'']) = ''y'' # []" by (simp add: start_def)
  have m3: "lower ''y'' = ''y''" by (simp add: string_eval)
  have m4: "backend ?C (commands (trace (start [''y''])) @ [merge_cmd]) = Exited [] 1"
    by (simp add: conflict_backend_def run_eval merge_cmd_def diff_paths_cmd_def)
  then have m4': "\<forall>out. backend ?C (commands (trace (start [''y''])) @ [merge_cmd]) \<noteq> Exited out 0"
    by simp
  note t3 = only_fetch_and_merge_codes_are_read
    [where E = ?C and st = "start [''y'']" and files = "[''src/a.txt'']" and confirm = "''y''"
       and rest = "[]"]
  note r4 = t3 [THEN conjunct2, THEN conjunct2, THEN conjunct2, THEN conjunct2, THEN conjunct2,
      THEN conjunct2, THEN conjunct1, THEN mp, OF conjI [OF m1 conjI [OF m2 conjI [OF m3 m4']]],
      THEN conjunct2, THEN conjunct2]
  have g1: "in_repository ?G" and g2: "\<not> git_available ?G" by (simp_all add: env_of_def)
  note t4 = only_fetch_and_merge_codes_are_read [where E = ?G and st = "start []"]
  note r5 = t4 [THEN conjunct2, THEN conjunct2, THEN conjunct2, THEN conjunct2, THEN conjunct2,
      THEN conjunct2, THEN conjunct2, THEN mp, OF conjI [OF g1 g2]]
  show ?thesis
    by (intro conjI a r1 b r2 r3 m1 m2 m3 m4 r4 g1 g2 r5)
qed

text \<open>The claim as stated fails: the diff query fails with return code 128, and the
  session is, event for event, the session of a successful query that reports no
  divergence; it reports that everything is up to date.\<close>

theorem failing_diff_counterexample:
  "backend (env_of failing_diff_backend)
     [''git remote -v'', ''git fetch upstream'', ''git log -1 --oneline upstream/main'',
      diff_paths_cmd] = Exited [] 128 \<and>
   main_loop (env_of failing_diff_backend) (start [''0'']) =
     main_loop (env_of up_to_date_backend) (start [''0'']) \<and>
   trace (snd (main_loop (env_of failing_diff_backend) (start [''0'']))) =
     [Run ''git remote -v'', Say Fetching, Run ''git fetch upstream'',
      Run ''git log -1 --oneline upstream/main'', Say (FetchDone []),
      Run ''git diff --name-only HEAD..upstream/main'',
      Say (UpToDate [''.github/'', ''SRAFrontend/'', ''setup/'', ''README.md'', ''package.py'',
                     ''.gitignore'', ''.gitattributes'']),
      Ask AskMenu, Say Goodbye]"
  by (simp add: failing_diff_backend_def up_to_date_backend_def session_eval2 run_eval
        string_eval clean_patterns)

end
